theory Spec2Isabelle
  imports Complex_Main "HOL-Library.Word"
begin

unbundle bit_operations_syntax

section \<open>JavaScript numbers\<close>

text \<open>
  A JavaScript number is an IEEE double: \<open>NaN\<close>, \<open>-Infinity\<close>, \<open>Infinity\<close>, or a
  finite value, carried as the real number it denotes. Each arithmetic operation
  computes the exact result and rounds it to the nearest double, ties to even
  (\<open>toDouble\<close>), overflowing to an infinity. The sign of zero is not represented.
  \<open>undefined\<close> read from past the end of an array becomes \<open>NaN\<close> as soon as
  arithmetic touches it, which is how every read below is used.
\<close>

datatype jsnum = NaN | NegInf | Fin real | PosInf

text \<open>The sign of an infinite result: \<open>sgn_inf positive\<close>.\<close>

definition sgn_inf :: "bool \<Rightarrow> jsnum" where
  "sgn_inf pos = (if pos then PosInf else NegInf)"

subsection \<open>Rounding to a double\<close>

text \<open>
  A finite double is \<open>m * 2 ^ e\<close> with \<open>|m| < 2 ^ 53\<close> and \<open>e \<ge> -1074\<close>. The doubles
  around a real \<open>x\<close> are spaced \<open>doubleUlp x\<close> apart: \<open>2 ^ (e - 52)\<close> for
  \<open>2 ^ e \<le> |x| < 2 ^ (e + 1)\<close>, and \<open>2 ^ -1074\<close> below \<open>2 ^ -1022\<close> (the subnormal
  range). \<open>toDouble x\<close> is the multiple of that spacing nearest to \<open>x\<close>, a tie going
  to the even multiple, and an infinity when it reaches \<open>2 ^ 1024\<close>.
\<close>

definition roundHalfEven :: "real \<Rightarrow> int" where
  "roundHalfEven x =
     (let f = \<lfloor>x\<rfloor>; r = x - of_int f
      in if r < 1 / 2 then f else if 1 / 2 < r then f + 1
         else if even f then f else f + 1)"

definition doubleExponent :: "real \<Rightarrow> int" where
  "doubleExponent x = max (- 1022) \<lfloor>log 2 \<bar>x\<bar>\<rfloor>"

definition doubleUlp :: "real \<Rightarrow> real" where
  "doubleUlp x = 2 powr of_int (doubleExponent x - 52)"

definition doubleLimit :: real where
  "doubleLimit = 2 ^ 1024"

definition toDouble :: "real \<Rightarrow> jsnum" where
  "toDouble x =
     (if x = 0 then Fin 0
      else (let y = of_int (roundHalfEven (x / doubleUlp x)) * doubleUlp x
            in if doubleLimit \<le> \<bar>y\<bar> then sgn_inf (0 < x) else Fin y))"

text \<open>
  The finite values a \<open>Float32Array\<close> can hold: \<open>m * 2 ^ k\<close> with \<open>|m| < 2 ^ 24\<close> and
  \<open>-149 \<le> k \<le> 104\<close>. An entry is such a value, an infinity or \<open>NaN\<close>.
\<close>

definition float32Value :: "int \<Rightarrow> int \<Rightarrow> real" where
  "float32Value m k = of_int m * 2 powr of_int k"

definition isFloat32 :: "jsnum \<Rightarrow> bool" where
  "isFloat32 x =
     (case x of
        Fin a \<Rightarrow> (\<exists>m k. \<bar>m\<bar> < 2 ^ 24 \<and> - 149 \<le> k \<and> k \<le> 104 \<and> a = float32Value m k)
      | _ \<Rightarrow> True)"

subsection \<open>Arithmetic\<close>

fun js_neg :: "jsnum \<Rightarrow> jsnum" where
  "js_neg NaN = NaN"
| "js_neg NegInf = PosInf"
| "js_neg PosInf = NegInf"
| "js_neg (Fin a) = Fin (- a)"

fun js_add :: "jsnum \<Rightarrow> jsnum \<Rightarrow> jsnum" where
  "js_add NaN _ = NaN"
| "js_add _ NaN = NaN"
| "js_add PosInf NegInf = NaN"
| "js_add NegInf PosInf = NaN"
| "js_add PosInf _ = PosInf"
| "js_add _ PosInf = PosInf"
| "js_add NegInf _ = NegInf"
| "js_add _ NegInf = NegInf"
| "js_add (Fin a) (Fin b) = toDouble (a + b)"

definition js_sub :: "jsnum \<Rightarrow> jsnum \<Rightarrow> jsnum" where
  "js_sub x y = js_add x (js_neg y)"

fun js_mul :: "jsnum \<Rightarrow> jsnum \<Rightarrow> jsnum" where
  "js_mul NaN _ = NaN"
| "js_mul _ NaN = NaN"
| "js_mul (Fin a) (Fin b) = toDouble (a * b)"
| "js_mul (Fin a) PosInf = (if a = 0 then NaN else sgn_inf (0 < a))"
| "js_mul (Fin a) NegInf = (if a = 0 then NaN else sgn_inf (a < 0))"
| "js_mul PosInf (Fin b) = (if b = 0 then NaN else sgn_inf (0 < b))"
| "js_mul NegInf (Fin b) = (if b = 0 then NaN else sgn_inf (b < 0))"
| "js_mul PosInf PosInf = PosInf"
| "js_mul NegInf NegInf = PosInf"
| "js_mul PosInf NegInf = NegInf"
| "js_mul NegInf PosInf = NegInf"

text \<open>
  Division. A finite divisor that is zero stands for \<open>+0\<close>: every division below is by
  a value the code has just tested to be positive, or by a literal.
\<close>

fun js_div :: "jsnum \<Rightarrow> jsnum \<Rightarrow> jsnum" where
  "js_div NaN _ = NaN"
| "js_div _ NaN = NaN"
| "js_div (Fin a) (Fin b) =
     (if b = 0 then (if a = 0 then NaN else sgn_inf (0 < a)) else toDouble (a / b))"
| "js_div (Fin a) PosInf = Fin 0"
| "js_div (Fin a) NegInf = Fin 0"
| "js_div PosInf (Fin b) = sgn_inf (0 \<le> b)"
| "js_div NegInf (Fin b) = sgn_inf (b < 0)"
| "js_div PosInf PosInf = NaN"
| "js_div PosInf NegInf = NaN"
| "js_div NegInf PosInf = NaN"
| "js_div NegInf NegInf = NaN"

text \<open>Comparison \<open>x > y\<close>: false as soon as one side is \<open>NaN\<close>.\<close>

fun js_gt :: "jsnum \<Rightarrow> jsnum \<Rightarrow> bool" where
  "js_gt NaN _ = False"
| "js_gt _ NaN = False"
| "js_gt PosInf PosInf = False"
| "js_gt PosInf _ = True"
| "js_gt _ PosInf = False"
| "js_gt NegInf _ = False"
| "js_gt _ NegInf = True"
| "js_gt (Fin a) (Fin b) = (b < a)"

text \<open>\<open>Math.max\<close> and \<open>Math.min\<close> of two arguments: \<open>NaN\<close> when either is.\<close>

fun js_max :: "jsnum \<Rightarrow> jsnum \<Rightarrow> jsnum" where
  "js_max NaN _ = NaN"
| "js_max _ NaN = NaN"
| "js_max PosInf _ = PosInf"
| "js_max _ PosInf = PosInf"
| "js_max NegInf y = y"
| "js_max x NegInf = x"
| "js_max (Fin a) (Fin b) = Fin (max a b)"

fun js_min :: "jsnum \<Rightarrow> jsnum \<Rightarrow> jsnum" where
  "js_min NaN _ = NaN"
| "js_min _ NaN = NaN"
| "js_min NegInf _ = NegInf"
| "js_min _ NegInf = NegInf"
| "js_min PosInf y = y"
| "js_min x PosInf = x"
| "js_min (Fin a) (Fin b) = Fin (min a b)"

text \<open>\<open>Math.sqrt\<close>: \<open>NaN\<close> on a negative argument, else the rounded root.\<close>

fun js_sqrt :: "jsnum \<Rightarrow> jsnum" where
  "js_sqrt NaN = NaN"
| "js_sqrt NegInf = NaN"
| "js_sqrt PosInf = PosInf"
| "js_sqrt (Fin a) = (if a < 0 then NaN else toDouble (sqrt a))"

text \<open>\<open>Math.round\<close>: the nearest integer, a tie going up (\<open>floor (x + 0.5)\<close>).\<close>

fun js_round :: "jsnum \<Rightarrow> jsnum" where
  "js_round (Fin a) = Fin (of_int \<lfloor>a + 1 / 2\<rfloor>)"
| "js_round x = x"

text \<open>Truthiness of a number: \<open>0\<close> and \<open>NaN\<close> are falsy.\<close>

fun js_truthy :: "jsnum \<Rightarrow> bool" where
  "js_truthy NaN = False"
| "js_truthy (Fin a) = (a \<noteq> 0)"
| "js_truthy _ = True"


text \<open>
  \<open>a[i]\<close> used as a number: the element, or \<open>undefined\<close> past the end, which
  arithmetic turns into \<open>NaN\<close>.
\<close>

definition js_get :: "jsnum list \<Rightarrow> nat \<Rightarrow> jsnum" where
  "js_get a i = (if i < length a then a ! i else NaN)"

subsection \<open>Typed-array stores\<close>

text \<open>
  Storing a number into an integer typed array applies \<open>ToInt8\<close>/\<open>ToInt16\<close>/...:
  \<open>NaN\<close> and the infinities become 0, a finite value is truncated towards zero and
  wrapped modulo \<open>2 ^ bits\<close>. A \<open>Float32Array\<close> store rounds to single precision;
  every value stored into one below is the larger of two \<open>Float32Array\<close> entries,
  or 0, which the store leaves as it is.
\<close>

definition trunc_real :: "real \<Rightarrow> int" where
  "trunc_real a = (if 0 \<le> a then \<lfloor>a\<rfloor> else \<lceil>a\<rceil>)"

definition wrap_signed :: "nat \<Rightarrow> int \<Rightarrow> int" where
  "wrap_signed bits k = (k + 2 ^ (bits - 1)) mod 2 ^ bits - 2 ^ (bits - 1)"

definition wrap_unsigned :: "nat \<Rightarrow> int \<Rightarrow> int" where
  "wrap_unsigned bits k = k mod 2 ^ bits"

fun js_to_integer :: "jsnum \<Rightarrow> int" where
  "js_to_integer (Fin a) = trunc_real a"
| "js_to_integer _ = 0"

definition toInt8 :: "jsnum \<Rightarrow> int" where
  "toInt8 x = wrap_signed 8 (js_to_integer x)"

definition toInt16 :: "jsnum \<Rightarrow> int" where
  "toInt16 x = wrap_signed 16 (js_to_integer x)"

definition toFloat32 :: "jsnum \<Rightarrow> jsnum" where
  "toFloat32 x = x"

section \<open>Importance merge (view-importance.js)\<close>

text \<open>
  \<open>mergeImportance(textureImportance, viewImportance)\<close>. An argument is \<open>null\<close>
  (\<open>None\<close>) or a \<open>Float32Array\<close>; an array, even an empty one, is truthy.
\<close>

definition mergeImportance ::
  "jsnum list option \<Rightarrow> jsnum list option \<Rightarrow> jsnum list option" where
  "mergeImportance textureImportance viewImportance =
     (case textureImportance of
        None \<Rightarrow> (case viewImportance of None \<Rightarrow> None | Some vi \<Rightarrow> Some vi)
      | Some ti \<Rightarrow>
          (case viewImportance of
             None \<Rightarrow> Some ti
           | Some vi \<Rightarrow>
               Some (map (\<lambda>i. let t = (if i < length ti then ti ! i else Fin 0);
                                   v = (if i < length vi then vi ! i else Fin 0)
                               in toFloat32 (js_max t v))
                         [0..<max (length ti) (length vi)])))"

section \<open>Vertex lock (texture-importance.js)\<close>

text \<open>
  \<open>buildVertexLock(importance, seamVertices, importanceThreshold = 0.7)\<close>: the third
  argument is \<open>None\<close> when the caller leaves it out, and the literal \<open>0.7\<close> is the
  double nearest to \<open>7 / 10\<close>. The result is a \<open>Uint8Array\<close> of zeros and ones.
\<close>

definition buildVertexLock ::
  "jsnum list option \<Rightarrow> nat set \<Rightarrow> jsnum option \<Rightarrow> nat list" where
  "buildVertexLock importance seamVertices importanceThreshold_opt =
     (let importanceThreshold =
            (case importanceThreshold_opt of None \<Rightarrow> toDouble (7 / 10) | Some t \<Rightarrow> t);
          vertexCount = (case importance of None \<Rightarrow> 0 | Some imp \<Rightarrow> length imp);
          seamThreshold = js_mul importanceThreshold (Fin (1 / 2))
      in map (\<lambda>v.
                let vertexImportance =
                      (case importance of None \<Rightarrow> Fin 0 | Some imp \<Rightarrow> imp ! v)
                in if v \<in> seamVertices
                   then (if js_gt vertexImportance seamThreshold then 1 else 0)
                   else (if js_gt vertexImportance importanceThreshold then 1 else 0))
             [0..<vertexCount])"

text \<open>
  The threshold \<open>simplifyPrimitive\<close> and \<open>generateLODChain\<close> hand on:
  \<open>options.importanceThreshold || 0.5\<close>.
\<close>

definition importanceThresholdOrDefault :: "jsnum option \<Rightarrow> jsnum" where
  "importanceThresholdOrDefault t =
     (case t of None \<Rightarrow> Fin (1 / 2)
      | Some x \<Rightarrow> if js_truthy x then x else Fin (1 / 2))"


text \<open>
  The lock mask of \<open>simplifyPrimitive\<close>:
  \<open>buildVertexLock(options.textureImportance, uvSeams, options.importanceThreshold || 0.5)\<close>.
\<close>

definition vertexLock :: "jsnum list \<Rightarrow> nat set \<Rightarrow> jsnum option \<Rightarrow> nat list" where
  "vertexLock textureImportance uvSeams importanceThreshold =
     buildVertexLock (Some textureImportance) uvSeams
       (Some (importanceThresholdOrDefault importanceThreshold))"
section \<open>UV seams (texture-importance.js)\<close>


fun map_push :: "'k \<Rightarrow> 'e \<Rightarrow> ('k \<times> 'e list) list \<Rightarrow> ('k \<times> 'e list) list" where
  "map_push k e [] = [(k, [e])]"
| "map_push k e ((k', es) # rest) =
     (if k = k' then (k', es @ [e]) # rest else (k', es) # map_push k e rest)"






text \<open>
  \<open>vertexCount = positions.length / 3\<close> is a real number; the loop
  \<open>for (v = 0; v < vertexCount; v++)\<close> runs for every \<open>v\<close> with \<open>3 * v < length\<close>.
\<close>

definition vertexLoopCount :: "jsnum list \<Rightarrow> nat" where
  "vertexLoopCount positions = (length positions + 2) div 3"







section \<open>Quantizer (quantizer.js)\<close>

text \<open>
  The component types \<open>GL.BYTE\<close> ... \<open>GL.FLOAT\<close> and the accessor types of
  glb-parser.js, with the two lookup tables \<open>COMPONENT_SIZE\<close> and \<open>TYPE_COMPONENTS\<close>.
\<close>

datatype gl_type = BYTE | UNSIGNED_BYTE | SHORT | UNSIGNED_SHORT | UNSIGNED_INT | FLOAT
datatype accessor_type = SCALAR | VEC2 | VEC3 | VEC4 | MAT2 | MAT3 | MAT4

definition COMPONENT_SIZE :: "gl_type \<Rightarrow> nat" where
  "COMPONENT_SIZE t =
     (case t of BYTE \<Rightarrow> 1 | UNSIGNED_BYTE \<Rightarrow> 1 | SHORT \<Rightarrow> 2 | UNSIGNED_SHORT \<Rightarrow> 2
      | UNSIGNED_INT \<Rightarrow> 4 | FLOAT \<Rightarrow> 4)"

definition TYPE_COMPONENTS :: "accessor_type \<Rightarrow> nat" where
  "TYPE_COMPONENTS t =
     (case t of SCALAR \<Rightarrow> 1 | VEC2 \<Rightarrow> 2 | VEC3 \<Rightarrow> 3 | VEC4 \<Rightarrow> 4 | MAT2 \<Rightarrow> 4
      | MAT3 \<Rightarrow> 9 | MAT4 \<Rightarrow> 16)"

subsection \<open>quantizeNormals\<close>

text \<open>
  The result object \<open>{quantized, componentType, type, normalized}\<close>; \<open>quantized\<close> is
  an \<open>Int8Array\<close>, read here as the list of its signed values. A store past the end
  of a typed array is ignored, as \<open>xs[i := v]\<close> is.
\<close>

record attribute_quantization =
  quantized :: "int list"
  componentType :: gl_type
  accType :: accessor_type
  normalized :: bool

definition normalBytes :: "jsnum \<Rightarrow> jsnum \<Rightarrow> jsnum \<Rightarrow> int list" where
  "normalBytes nx ny nz =
     (let len = js_sqrt (js_add (js_add (js_mul nx nx) (js_mul ny ny)) (js_mul nz nz));
          n' = (if js_gt len (Fin 0)
                then (js_div nx len, js_div ny len, js_div nz len)
                else (nx, ny, nz))
      in [toInt8 (js_round (js_mul (fst n') (Fin 127))),
          toInt8 (js_round (js_mul (fst (snd n')) (Fin 127))),
          toInt8 (js_round (js_mul (snd (snd n')) (Fin 127)))])"

definition normalByteAt :: "jsnum list \<Rightarrow> nat \<Rightarrow> nat \<Rightarrow> int" where
  "normalByteAt normals i k =
     normalBytes (js_get normals (i * 3)) (js_get normals (i * 3 + 1))
       (js_get normals (i * 3 + 2)) ! k"

definition normalStep :: "jsnum list \<Rightarrow> int list \<Rightarrow> nat \<Rightarrow> int list" where
  "normalStep normals q i =
     q[i * 3 := normalByteAt normals i 0,
       i * 3 + 1 := normalByteAt normals i 1,
       i * 3 + 2 := normalByteAt normals i 2]"

definition quantizeNormals :: "jsnum list \<Rightarrow> attribute_quantization" where
  "quantizeNormals normals =
     \<lparr>quantized = foldl (normalStep normals) (replicate (length normals) 0)
                      [0..<vertexLoopCount normals],
      componentType = BYTE, accType = VEC3, normalized = True\<rparr>"


subsection \<open>quantizePositions\<close>

text \<open>
  The result object of \<open>quantizePositions(positions, bits = 16)\<close>; its fields \<open>min\<close>,
  \<open>max\<close>, \<open>scale\<close>, \<open>center\<close> are three-element arrays. The quantize loop stores the
  rounded value into the \<open>Int8Array\<close>/\<open>Int16Array\<close> first and clamps what it reads
  back.
\<close>

record position_quantization =
  pq_quantized :: "int list"
  pq_min :: "jsnum list"
  pq_max :: "jsnum list"
  pq_scale :: "jsnum list"
  pq_center :: "jsnum list"
  pq_componentType :: gl_type
  pq_quantizedMin :: "int list"
  pq_quantizedMax :: "int list"

definition bboxStep ::
  "jsnum list \<Rightarrow> jsnum list \<times> jsnum list \<Rightarrow> nat \<Rightarrow> jsnum list \<times> jsnum list" where
  "bboxStep positions mm i =
     (let x = js_get positions (i * 3);
          y = js_get positions (i * 3 + 1);
          z = js_get positions (i * 3 + 2);
          mn = fst mm; mx = snd mm
      in (mn[0 := js_min (mn ! 0) x, 1 := js_min (mn ! 1) y, 2 := js_min (mn ! 2) z],
          mx[0 := js_max (mx ! 0) x, 1 := js_max (mx ! 1) y, 2 := js_max (mx ! 2) z]))"

definition storeInt :: "bool \<Rightarrow> jsnum \<Rightarrow> int" where
  "storeInt use8Bit x = (if use8Bit then toInt8 x else toInt16 x)"

definition clampStore :: "bool \<Rightarrow> int \<Rightarrow> int \<Rightarrow> int" where
  "clampStore use8Bit maxValue k =
     storeInt use8Bit
       (js_max (Fin (of_int (- maxValue))) (js_min (Fin (of_int maxValue)) (Fin (of_int k))))"

definition positionStep ::
  "jsnum list \<Rightarrow> jsnum list \<Rightarrow> jsnum list \<Rightarrow> bool \<Rightarrow> int \<Rightarrow> int list \<Rightarrow> nat \<Rightarrow> int list" where
  "positionStep positions center scale use8Bit maxValue q i =
     (let x = js_get positions (i * 3);
          y = js_get positions (i * 3 + 1);
          z = js_get positions (i * 3 + 2);
          q1 = q[i * 3 := storeInt use8Bit (js_round (js_div (js_sub x (center ! 0)) (scale ! 0))),
                 i * 3 + 1 := storeInt use8Bit (js_round (js_div (js_sub y (center ! 1)) (scale ! 1))),
                 i * 3 + 2 := storeInt use8Bit (js_round (js_div (js_sub z (center ! 2)) (scale ! 2)))];
          q2 = q1[i * 3 := clampStore use8Bit maxValue (q1 ! (i * 3))];
          q3 = q2[i * 3 + 1 := clampStore use8Bit maxValue (q2 ! (i * 3 + 1))]
      in q3[i * 3 + 2 := clampStore use8Bit maxValue (q3 ! (i * 3 + 2))])"

definition quantizePositions :: "jsnum list \<Rightarrow> nat \<Rightarrow> position_quantization" where
  "quantizePositions positions bits =
     (let use8Bit = (bits = 8);
          maxValue = (if use8Bit then 127 else 32767);
          mm = foldl (bboxStep positions)
                 ([PosInf, PosInf, PosInf], [NegInf, NegInf, NegInf])
                 [0..<vertexLoopCount positions];
          mn = fst mm; mx = snd mm;
          range = [js_sub (mx ! 0) (mn ! 0), js_sub (mx ! 1) (mn ! 1), js_sub (mx ! 2) (mn ! 2)];
          scale = map (\<lambda>r. if js_gt r (Fin 0) then js_div r (Fin (2 * of_int maxValue)) else Fin 1)
                    range;
          center = [js_div (js_add (mn ! 0) (mx ! 0)) (Fin 2),
                    js_div (js_add (mn ! 1) (mx ! 1)) (Fin 2),
                    js_div (js_add (mn ! 2) (mx ! 2)) (Fin 2)]
      in \<lparr>pq_quantized =
            foldl (positionStep positions center scale use8Bit maxValue)
              (replicate (length positions) 0) [0..<vertexLoopCount positions],
          pq_min = mn, pq_max = mx, pq_scale = scale, pq_center = center,
          pq_componentType = (if use8Bit then BYTE else SHORT),
          pq_quantizedMin = [- maxValue, - maxValue, - maxValue],
          pq_quantizedMax = [maxValue, maxValue, maxValue]\<rparr>)"


text \<open>
  What the quantize loop leaves at component \<open>k\<close> of vertex \<open>i\<close>
  (\<open>positionStep_form\<close> below shows that \<open>positionStep\<close> writes exactly these).
\<close>

definition positionValueAt ::
  "jsnum list \<Rightarrow> jsnum list \<Rightarrow> jsnum list \<Rightarrow> bool \<Rightarrow> int \<Rightarrow> nat \<Rightarrow> nat \<Rightarrow> int" where
  "positionValueAt positions center scale use8Bit maxValue i k =
     clampStore use8Bit maxValue
       (storeInt use8Bit
          (js_round (js_div (js_sub (js_get positions (i * 3 + k)) (center ! k)) (scale ! k))))"


text \<open>
  The words of the specification: the values of one axis, its range, and the largest of
  the three ranges.
\<close>

definition axisValues :: "real list \<Rightarrow> nat \<Rightarrow> real list" where
  "axisValues ps a = map (\<lambda>i. ps ! (i * 3 + a)) [0..<length ps div 3]"

definition axisRange :: "real list \<Rightarrow> nat \<Rightarrow> real" where
  "axisRange ps a = Max (set (axisValues ps a)) - Min (set (axisValues ps a))"

definition maxAxisRange :: "real list \<Rightarrow> real" where
  "maxAxisRange ps = max (axisRange ps 0) (max (axisRange ps 1) (axisRange ps 2))"

section \<open>Container parser (glb-parser.js)\<close>

text \<open>
  An \<open>ArrayBuffer\<close> is a list of bytes. \<open>JSON.parse\<close> and the \<open>TextDecoder\<close> belong
  to the platform: their composition is the parameter \<open>decodeJson\<close>, which yields
  \<open>None\<close> where \<open>JSON.parse\<close> throws a \<open>SyntaxError\<close>. The parsed document is a
  JSON value; \<open>if (!json)\<close> tests its truthiness.
\<close>

type_synonym byte = "8 word"

datatype json = JNull | JBool bool | JNum real | JStr string | JArr "json list"
  | JObj "(string \<times> json) list"

fun json_truthy :: "json \<Rightarrow> bool" where
  "json_truthy JNull = False"
| "json_truthy (JBool b) = b"
| "json_truthy (JNum x) = (x \<noteq> 0)"
| "json_truthy (JStr s) = (s \<noteq> [])"
| "json_truthy (JArr _) = True"
| "json_truthy (JObj _) = True"

datatype parse_error = BadMagic | UnsupportedVersion nat | RangeError | SyntaxError
  | MissingJsonChunk

record parsed_glb =
  json :: json
  binChunk :: "byte list option"

text \<open>
  \<open>DataView.getUint32(offset, true)\<close>: a little-endian read that throws a
  \<open>RangeError\<close> (\<open>None\<close>) when the four bytes are not inside the buffer.
  \<open>ArrayBuffer.slice(begin, end)\<close> clamps both ends to the buffer.
\<close>

definition getUint32 :: "byte list \<Rightarrow> int \<Rightarrow> nat option" where
  "getUint32 buf off =
     (if 0 \<le> off \<and> nat off + 4 \<le> length buf
      then Some (unat (buf ! nat off) + 256 * unat (buf ! (nat off + 1))
                 + 65536 * unat (buf ! (nat off + 2)) + 16777216 * unat (buf ! (nat off + 3)))
      else None)"

definition slice :: "byte list \<Rightarrow> int \<Rightarrow> int \<Rightarrow> byte list" where
  "slice buf b e =
     (let len = int (length buf);
          first = (if b < 0 then max (len + b) 0 else min b len);
          final = (if e < 0 then max (len + e) 0 else min e len)
      in take (nat (final - first)) (drop (nat first) buf))"

text \<open>
  \<open>offset = (offset + 3) & ~3\<close>: the bitwise operators work on the 32-bit signed
  image of the number.
\<close>

definition alignOffset :: "int \<Rightarrow> int" where
  "alignOffset offset = wrap_signed 32 (offset + 3) AND NOT 3"

text \<open>
  The chunk loop \<open>while (offset < totalLength)\<close>. Nothing bounds the number of
  iterations, so the loop is a partial function: \<open>None\<close> is a run that never returns,
  \<open>Some (Inl e)\<close> a thrown error, \<open>Some (Inr (json, binChunk))\<close> the two variables
  when the loop ends.
\<close>

partial_function (option) parseChunks ::
  "(byte list \<Rightarrow> json option) \<Rightarrow> byte list \<Rightarrow> int \<Rightarrow> int \<Rightarrow> json option \<Rightarrow> byte list option
     \<Rightarrow> (parse_error + json option \<times> byte list option) option" where
  "parseChunks decodeJson buf totalLength offset js bin =
     (if offset < totalLength then
        (case getUint32 buf offset of
           None \<Rightarrow> Some (Inl RangeError)
         | Some chunkLength \<Rightarrow>
             (case getUint32 buf (offset + 4) of
                None \<Rightarrow> Some (Inl RangeError)
              | Some chunkType \<Rightarrow>
                  (let chunkData = slice buf (offset + 8) (offset + 8 + int chunkLength);
                       offset' = alignOffset (offset + 8 + int chunkLength)
                   in if chunkType = 0x4E4F534A then
                        (case decodeJson chunkData of
                           None \<Rightarrow> Some (Inl SyntaxError)
                         | Some j \<Rightarrow> parseChunks decodeJson buf totalLength offset' (Some j) bin)
                      else if chunkType = 0x004E4942 then
                        parseChunks decodeJson buf totalLength offset' js (Some chunkData)
                      else parseChunks decodeJson buf totalLength offset' js bin)))
      else Some (Inr (js, bin)))"

definition parseGLB ::
  "(byte list \<Rightarrow> json option) \<Rightarrow> byte list \<Rightarrow> (parse_error + parsed_glb) option" where
  "parseGLB decodeJson buf =
     (case getUint32 buf 0 of
        None \<Rightarrow> Some (Inl RangeError)
      | Some magic \<Rightarrow>
          if magic \<noteq> 0x46546C67 then Some (Inl BadMagic)
          else
            (case getUint32 buf 4 of
               None \<Rightarrow> Some (Inl RangeError)
             | Some version \<Rightarrow>
                 if version \<noteq> 2 then Some (Inl (UnsupportedVersion version))
                 else
                   (case getUint32 buf 8 of
                      None \<Rightarrow> Some (Inl RangeError)
                    | Some totalLength \<Rightarrow>
                        (case parseChunks decodeJson buf (int totalLength) 12 None None of
                           None \<Rightarrow> None
                         | Some (Inl e) \<Rightarrow> Some (Inl e)
                         | Some (Inr (js, bin)) \<Rightarrow>
                             (case js of
                                None \<Rightarrow> Some (Inl MissingJsonChunk)
                              | Some j \<Rightarrow>
                                  if json_truthy j
                                  then Some (Inr \<lparr>json = j, binChunk = bin\<rparr>)
                                  else Some (Inl MissingJsonChunk))))))"

subsection \<open>Well-framed files\<close>

text \<open>
  The words of the specification: a file is a 12-byte header followed by chunks, each a
  length, a type and a payload padded to a multiple of four bytes. \<open>walkChunks\<close> is the
  chunk loop on the list of chunks.
\<close>

definition encodeU32 :: "nat \<Rightarrow> byte list" where
  "encodeU32 n = [of_nat n, of_nat (n div 256), of_nat (n div 65536), of_nat (n div 16777216)]"

definition padLength :: "nat \<Rightarrow> nat" where
  "padLength n = (4 - n mod 4) mod 4"

definition encodeChunk :: "nat \<times> byte list \<Rightarrow> byte list" where
  "encodeChunk c =
     encodeU32 (length (snd c)) @ encodeU32 (fst c) @ snd c
       @ replicate (padLength (length (snd c))) 0"

definition glbBytes :: "(nat \<times> byte list) list \<Rightarrow> byte list" where
  "glbBytes cs =
     encodeU32 0x46546C67 @ encodeU32 2
       @ encodeU32 (12 + length (concat (map encodeChunk cs)))
       @ concat (map encodeChunk cs)"

fun walkChunks ::
  "(byte list \<Rightarrow> json option) \<Rightarrow> (nat \<times> byte list) list \<Rightarrow> json option \<Rightarrow> byte list option
     \<Rightarrow> parse_error + json option \<times> byte list option" where
  "walkChunks decodeJson [] js bin = Inr (js, bin)"
| "walkChunks decodeJson (c # cs) js bin =
     (if fst c = 0x4E4F534A then
        (case decodeJson (snd c) of
           None \<Rightarrow> Inl SyntaxError
         | Some j \<Rightarrow> walkChunks decodeJson cs (Some j) bin)
      else if fst c = 0x004E4942 then walkChunks decodeJson cs js (Some (snd c))
      else walkChunks decodeJson cs js bin)"

definition wellFramed :: "(nat \<times> byte list) list \<Rightarrow> bool" where
  "wellFramed cs \<longleftrightarrow>
     int (length (glbBytes cs)) + 3 < 2 ^ 31 \<and> list_all (\<lambda>c. fst c < 2 ^ 32) cs"

text \<open>
  A truncated file: the header announces \<open>totalByteLength\<close> bytes, whole chunks follow,
  and then only \<open>rest\<close> is left.
\<close>

definition truncatedBytes :: "nat \<Rightarrow> (nat \<times> byte list) list \<Rightarrow> byte list \<Rightarrow> byte list" where
  "truncatedBytes totalByteLength cs rest =
     encodeU32 0x46546C67 @ encodeU32 2 @ encodeU32 totalByteLength
       @ concat (map encodeChunk cs) @ rest"

definition jsonChunks :: "(nat \<times> byte list) list \<Rightarrow> (nat \<times> byte list) list" where
  "jsonChunks cs = filter (\<lambda>c. fst c = 0x4E4F534A) cs"

definition binChunks :: "(nat \<times> byte list) list \<Rightarrow> (nat \<times> byte list) list" where
  "binChunks cs = filter (\<lambda>c. fst c = 0x004E4942) cs"

definition lastPayload :: "(nat \<times> byte list) list \<Rightarrow> byte list option" where
  "lastPayload cs = (if cs = [] then None else Some (snd (last cs)))"

text \<open>Two decoders and three files used as concrete inputs below.\<close>

definition decodeBraces :: "byte list \<Rightarrow> json option" where
  "decodeBraces bs = (if bs = [0x7B, 0x7D] then Some (JObj []) else None)"

definition decodeNull :: "byte list \<Rightarrow> json option" where
  "decodeNull bs = (if bs = [0x6E, 0x75, 0x6C, 0x6C] then Some JNull else None)"

definition loopBytes :: "byte list" where
  "loopBytes = [0x67, 0x6C, 0x54, 0x46, 2, 0, 0, 0, 20, 0, 0, 0,
                0xF8, 0xFF, 0xFF, 0xFF, 0, 0, 0, 0]"

section \<open>Container writer (glb-writer.js)\<close>

text \<open>
  A typed array is its element kind and its elements; \<open>byteLength\<close> is the element
  count times the element size. The bytes behind a typed array
  (\<open>new Uint8Array(data.buffer, data.byteOffset, data.byteLength)\<close>) are the parameter
  \<open>bytesOf\<close> of the writer.
\<close>

record typed_array =
  ta_kind :: gl_type
  ta_elems :: "jsnum list"

definition byteLength :: "typed_array \<Rightarrow> nat" where
  "byteLength a = length (ta_elems a) * COMPONENT_SIZE (ta_kind a)"

definition toUint32 :: "jsnum \<Rightarrow> jsnum" where
  "toUint32 x = Fin (of_int (wrap_unsigned 32 (js_to_integer x)))"

text \<open>
  The optimized primitives the writer receives: attributes \<open>{data, componentType, type,
  count, normalized, min, max, transform}\<close> in the order of the object's keys, indices
  \<open>{data, componentType}\<close>, and the bookkeeping fields.
\<close>

record quant_transform =
  qt_scale :: "jsnum list"
  qt_translation :: "jsnum list"

record out_attribute =
  oa_data :: typed_array
  oa_componentType :: gl_type
  oa_type :: accessor_type
  oa_count :: real
  oa_normalized :: "bool option"
  oa_min :: "jsnum list option"
  oa_max :: "jsnum list option"
  oa_transform :: "quant_transform option"

record out_indices =
  oi_data :: typed_array
  oi_componentType :: gl_type

record prim_stats =
  originalVertices :: real
  optimizedVertices :: real
  originalBytes :: nat
  optimizedBytes :: nat

record optimized_primitive =
  op_meshIndex :: nat
  op_primitiveIndex :: nat
  op_meshName :: string
  op_mode :: nat
  op_material :: "nat option"
  op_attributes :: "(string \<times> out_attribute) list"
  op_indices :: "out_indices option"
  op_stats :: prim_stats

text \<open>
  The output document: buffer views (with the \<open>EXT_meshopt_compression\<close> extension
  object when the view holds compressed bytes), accessors, primitives and meshes.
\<close>

record meshopt_ext =
  me_byteOffset :: nat
  me_byteLength :: nat
  me_byteStride :: nat
  me_count :: real
  me_mode :: string

record buffer_view =
  bv_byteOffset :: nat
  bv_byteLength :: nat
  bv_target :: "nat option"
  bv_meshopt :: "meshopt_ext option"

record accessor =
  ac_bufferView :: nat
  ac_componentType :: gl_type
  ac_count :: real
  ac_type :: accessor_type
  ac_normalized :: "bool option"
  ac_min :: "jsnum list option"
  ac_max :: "jsnum list option"

record gltf_primitive =
  gp_attributes :: "(string \<times> nat) list"
  gp_mode :: nat
  gp_material :: "nat option"
  gp_indices :: "nat option"

record gltf_mesh =
  gm_name :: string
  gm_primitives :: "gltf_primitive list"

text \<open>
  \<open>MeshoptEncoder\<close> is a dependency: its \<open>supported\<close> flag and its two encoders are
  parameters. An encoder yields \<open>None\<close> where the call throws (or returns a falsy
  value): the \<open>catch\<close> sets \<open>compressed = null\<close> and \<open>if (compressed)\<close> fails.
\<close>

record encoder =
  supported :: bool
  encodeIndexBuffer :: "jsnum list \<Rightarrow> nat \<Rightarrow> nat \<Rightarrow> byte list option"
  encodeVertexBuffer :: "byte list \<Rightarrow> real \<Rightarrow> nat \<Rightarrow> byte list option"

text \<open>
  The four variables the function threads through its loops: \<open>bufferData\<close>,
  \<open>bufferViews\<close>, \<open>accessors\<close> and \<open>currentOffset\<close>. \<open>alignTo\<close> is
  \<open>Math.ceil(offset / alignment) * alignment\<close>; \<open>padTo\<close> is the recurring
  \<open>if (alignedOffset > currentOffset) { push zero bytes }\<close>.
\<close>

record writer_state =
  bufferData :: "byte list list"
  bufferViews :: "buffer_view list"
  accessors :: "accessor list"
  currentOffset :: nat

definition alignTo :: "nat \<Rightarrow> nat \<Rightarrow> nat" where
  "alignTo offset alignment = ((offset + alignment - 1) div alignment) * alignment"

definition padTo :: "nat \<Rightarrow> writer_state \<Rightarrow> writer_state" where
  "padTo alignment st =
     (let alignedOffset = alignTo (currentOffset st) alignment
      in if alignedOffset > currentOffset st
         then st\<lparr>bufferData := bufferData st @ [replicate (alignedOffset - currentOffset st) 0],
                 currentOffset := alignedOffset\<rparr>
         else st)"

text \<open>\<open>object[key] = value\<close> on an object kept as the list of its entries.\<close>

fun objSet :: "'k \<Rightarrow> 'v \<Rightarrow> ('k \<times> 'v) list \<Rightarrow> ('k \<times> 'v) list" where
  "objSet k v [] = [(k, v)]"
| "objSet k v ((k', v') # rest) =
     (if k = k' then (k', v) # rest else (k', v') # objSet k v rest)"

text \<open>
  The index data handed to the encoder: \<open>indexData\<close> itself when it is a
  \<open>Uint32Array\<close>, else \<open>new Uint32Array(indexData)\<close>.
\<close>

definition indices32 :: "typed_array \<Rightarrow> jsnum list" where
  "indices32 indexData =
     (if ta_kind indexData = UNSIGNED_INT then ta_elems indexData
      else map toUint32 (ta_elems indexData))"

definition emitIndices ::
  "encoder \<Rightarrow> (typed_array \<Rightarrow> byte list) \<Rightarrow> bool \<Rightarrow> out_indices \<Rightarrow> writer_state
     \<Rightarrow> writer_state \<times> nat" where
  "emitIndices enc bytesOf useMeshoptCompression ind st =
     (let indexData = oi_data ind;
          indexCount = length (ta_elems indexData);
          canCompressIndices = (useMeshoptCompression \<and> supported enc \<and> indexCount > 0)
      in if canCompressIndices then
           (case encodeIndexBuffer enc (indices32 indexData) indexCount 4 of
                 Some compressed \<Rightarrow>
                   (let st1 = padTo 4 st;
                        bufferView = \<lparr>bv_byteOffset = currentOffset st1,
                                      bv_byteLength = length compressed,
                                      bv_target = None,
                                      bv_meshopt = Some \<lparr>me_byteOffset = currentOffset st1,
                                                         me_byteLength = length compressed,
                                                         me_byteStride = 4,
                                                         me_count = real indexCount,
                                                         me_mode = ''TRIANGLES''\<rparr>\<rparr>;
                        views = bufferViews st1 @ [bufferView];
                        accs = accessors st1 @
                                 [\<lparr>ac_bufferView = length views - 1,
                                   ac_componentType = UNSIGNED_INT,
                                   ac_count = real indexCount, ac_type = SCALAR,
                                   ac_normalized = None, ac_min = None, ac_max = None\<rparr>]
                    in (\<lparr>bufferData = bufferData st1 @ [compressed], bufferViews = views,
                         accessors = accs,
                         currentOffset = currentOffset st1 + length compressed\<rparr>,
                        length accs - 1))
               | None \<Rightarrow>
                   (let st1 = padTo 4 st;
                        bufferView = \<lparr>bv_byteOffset = currentOffset st1,
                                      bv_byteLength = byteLength indexData,
                                      bv_target = Some 34963, bv_meshopt = None\<rparr>;
                        views = bufferViews st1 @ [bufferView];
                        accs = accessors st1 @
                                 [\<lparr>ac_bufferView = length views - 1,
                                   ac_componentType = oi_componentType ind,
                                   ac_count = real indexCount, ac_type = SCALAR,
                                   ac_normalized = None, ac_min = None, ac_max = None\<rparr>]
                    in (\<lparr>bufferData = bufferData st1 @ [bytesOf indexData], bufferViews = views,
                         accessors = accs,
                         currentOffset = currentOffset st1 + byteLength indexData\<rparr>,
                        length accs - 1)))
         else
           (let st1 = padTo 4 st;
                bufferView = \<lparr>bv_byteOffset = currentOffset st1,
                              bv_byteLength = byteLength indexData,
                              bv_target = Some 34963, bv_meshopt = None\<rparr>;
                views = bufferViews st1 @ [bufferView];
                accs = accessors st1 @
                         [\<lparr>ac_bufferView = length views - 1,
                           ac_componentType = oi_componentType ind,
                           ac_count = real indexCount, ac_type = SCALAR,
                           ac_normalized = None, ac_min = None, ac_max = None\<rparr>]
            in (\<lparr>bufferData = bufferData st1 @ [bytesOf indexData], bufferViews = views,
                 accessors = accs,
                 currentOffset = currentOffset st1 + byteLength indexData\<rparr>,
                length accs - 1)))"

text \<open>The body of the loop over \<open>Object.entries(prim.attributes)\<close>.\<close>

definition emitAttribute ::
  "encoder \<Rightarrow> (typed_array \<Rightarrow> byte list) \<Rightarrow> bool \<Rightarrow> string \<times> out_attribute
     \<Rightarrow> writer_state \<Rightarrow> writer_state \<times> nat" where
  "emitAttribute enc bytesOf useMeshoptCompression na st =
     (let attrName = fst na; attr = snd na;
          data = oa_data attr;
          componentSize = COMPONENT_SIZE (oa_componentType attr);
          numComponents = TYPE_COMPONENTS (oa_type attr);
          stride = componentSize * numComponents;
          count = oa_count attr;
          canCompress = (useMeshoptCompression \<and> supported enc \<and> stride mod 4 = 0
                         \<and> stride \<le> 256 \<and> count > 0);
          placed =
            (if canCompress then
               (case encodeVertexBuffer enc (bytesOf data) count stride of
                  Some compressed \<Rightarrow>
                    (let st1 = padTo 4 st
                     in (st1,
                         \<lparr>bv_byteOffset = currentOffset st1,
                           bv_byteLength = length compressed,
                           bv_target = None,
                           bv_meshopt = Some \<lparr>me_byteOffset = currentOffset st1,
                                              me_byteLength = length compressed,
                                              me_byteStride = stride,
                                              me_count = count,
                                              me_mode = ''ATTRIBUTES''\<rparr>\<rparr>,
                         compressed, length compressed))
                | None \<Rightarrow>
                    (let st1 = padTo componentSize st
                     in (st1,
                         \<lparr>bv_byteOffset = currentOffset st1,
                           bv_byteLength = byteLength data,
                           bv_target = Some 34962, bv_meshopt = None\<rparr>,
                         bytesOf data, byteLength data)))
             else
               (let st1 = padTo componentSize st
                in (st1,
                    \<lparr>bv_byteOffset = currentOffset st1,
                      bv_byteLength = byteLength data,
                      bv_target = Some 34962, bv_meshopt = None\<rparr>,
                    bytesOf data, byteLength data)));
          st1 = fst placed; bufferView = fst (snd placed);
          finalData = fst (snd (snd placed)); finalLength = snd (snd (snd placed));
          views = bufferViews st1 @ [bufferView];
          keepMinMax = (attrName = ''POSITION'' \<and> oa_min attr \<noteq> None \<and> oa_max attr \<noteq> None);
          accessor = \<lparr>ac_bufferView = length views - 1,
                      ac_componentType = oa_componentType attr,
                      ac_count = count, ac_type = oa_type attr,
                      ac_normalized = (if oa_normalized attr = Some True then Some True else None),
                      ac_min = (if keepMinMax then oa_min attr else None),
                      ac_max = (if keepMinMax then oa_max attr else None)\<rparr>;
          accs = accessors st1 @ [accessor]
      in (\<lparr>bufferData = bufferData st1 @ [finalData], bufferViews = views, accessors = accs,
           currentOffset = currentOffset st1 + finalLength\<rparr>,
          length accs - 1))"


text \<open>One primitive, one mesh, and the loop over \<open>meshesByIndex\<close>.\<close>

definition emitPrimitive ::
  "encoder \<Rightarrow> (typed_array \<Rightarrow> byte list) \<Rightarrow> bool \<Rightarrow> optimized_primitive
     \<Rightarrow> writer_state \<Rightarrow> writer_state \<times> gltf_primitive" where
  "emitPrimitive enc bytesOf useMeshoptCompression prim st =
     (let r1 = (case op_indices prim of
                  None \<Rightarrow> (st, None)
                | Some ind \<Rightarrow>
                    (let r = emitIndices enc bytesOf useMeshoptCompression ind st
                     in (fst r, Some (snd r))));
          r2 = foldl (\<lambda>sa na.
                        let r = emitAttribute enc bytesOf useMeshoptCompression na (fst sa)
                        in (fst r, objSet (fst na) (snd r) (snd sa)))
                     (fst r1, []) (op_attributes prim)
      in (fst r2,
          \<lparr>gp_attributes = snd r2, gp_mode = op_mode prim, gp_material = op_material prim,
            gp_indices = snd r1\<rparr>))"

definition emitMesh ::
  "encoder \<Rightarrow> (typed_array \<Rightarrow> byte list) \<Rightarrow> bool \<Rightarrow> optimized_primitive list
     \<Rightarrow> writer_state \<Rightarrow> writer_state \<times> gltf_mesh" where
  "emitMesh enc bytesOf useMeshoptCompression prims st =
     (let r = foldl (\<lambda>sp prim.
                       let r = emitPrimitive enc bytesOf useMeshoptCompression prim (fst sp)
                       in (fst r, snd sp @ [snd r]))
                    (st, []) prims
      in (fst r, \<lparr>gm_name = op_meshName (hd prims), gm_primitives = snd r\<rparr>))"

definition meshesByIndex ::
  "optimized_primitive list \<Rightarrow> (nat \<times> optimized_primitive list) list" where
  "meshesByIndex primitives = foldl (\<lambda>m prim. map_push (op_meshIndex prim) prim m) [] primitives"

definition emitMeshes ::
  "encoder \<Rightarrow> (typed_array \<Rightarrow> byte list) \<Rightarrow> bool \<Rightarrow> optimized_primitive list
     \<Rightarrow> writer_state \<Rightarrow> writer_state \<times> gltf_mesh list" where
  "emitMeshes enc bytesOf useMeshoptCompression primitives st =
     foldl (\<lambda>sm g.
              let r = emitMesh enc bytesOf useMeshoptCompression (snd g) (fst sm)
              in (fst r, snd sm @ [snd r]))
           (st, []) (meshesByIndex primitives)"


text \<open>
  The rest of the function copies images and the accessors of animations and skins out
  of the original binary chunk. A read of a property of \<open>undefined\<close> throws a
  \<open>TypeError\<close> (\<open>UndefinedRead\<close>) and a \<open>Uint8Array\<close> view that leaves the chunk throws
  a \<open>RangeError\<close> (\<open>ViewOutOfRange\<close>). Parts of the original document that are copied
  as they are travel as JSON values.
\<close>

datatype write_error = UndefinedRead | ViewOutOfRange

record image_json =
  im_bufferView :: "nat option"
  im_uri :: "string option"
  im_mimeType :: "string option"
  im_name :: "string option"
  im_rest :: "(string \<times> json) list"

record orig_buffer_view =
  obv_byteOffset :: "nat option"
  obv_byteLength :: nat

record orig_accessor =
  ra_bufferView :: nat
  ra_byteOffset :: "nat option"
  ra_componentType :: gl_type
  ra_type :: accessor_type
  ra_count :: nat
  ra_min :: "jsnum list option"
  ra_max :: "jsnum list option"
  ra_normalized :: "bool option"

record anim_sampler =
  as_input :: nat
  as_output :: nat
  as_rest :: "(string \<times> json) list"

record animation =
  an_samplers :: "anim_sampler list"
  an_rest :: "(string \<times> json) list"

record skin =
  sk_inverseBindMatrices :: "nat option"
  sk_rest :: "(string \<times> json) list"

record orig_primitive =
  om_indices :: "nat option"
  om_attributes :: "(string \<times> nat) list"
  om_targets :: "(string \<times> nat) list list option"

record node =
  nd_mesh :: "nat option"
  nd_scale :: "jsnum list option"
  nd_rotation :: "jsnum list option"
  nd_translation :: "jsnum list option"
  nd_rest :: "(string \<times> json) list"

record original_json =
  oj_passthrough :: "(string \<times> json) list"
  oj_nodes :: "node list option"
  oj_images :: "image_json list option"
  oj_bufferViews :: "orig_buffer_view list"
  oj_accessors :: "orig_accessor list"
  oj_animations :: "animation list option"
  oj_skins :: "skin list option"
  oj_meshes :: "orig_primitive list list option"

record optimized_data =
  od_primitives :: "optimized_primitive list"
  od_originalJSON :: original_json
  od_originalBinChunk :: "byte list option"

record write_options =
  meshoptCompression :: "bool option"

text \<open>
  \<open>options.meshoptCompression\<close> is absent (\<open>None\<close>) or a boolean.
  \<open>new Uint8Array(chunk, byteOffset, byteLength)\<close> is \<open>viewBytes\<close>.
\<close>

definition viewBytes :: "byte list \<Rightarrow> nat \<Rightarrow> nat \<Rightarrow> write_error + byte list" where
  "viewBytes bin byteOffset len =
     (if byteOffset + len \<le> length bin then Inr (take len (drop byteOffset bin))
      else Inl ViewOutOfRange)"

definition orZero :: "nat option \<Rightarrow> nat" where
  "orZero x = (case x of None \<Rightarrow> 0 | Some n \<Rightarrow> n)"

definition truthyString :: "string option \<Rightarrow> string option" where
  "truthyString x = (case x of None \<Rightarrow> None | Some s \<Rightarrow> if s = [] then None else Some s)"

definition emitImage ::
  "original_json \<Rightarrow> byte list \<Rightarrow> (nat \<rightharpoonup> byte list) option
     \<Rightarrow> writer_state \<times> image_json list \<Rightarrow> nat \<times> image_json
     \<Rightarrow> write_error + writer_state \<times> image_json list" where
  "emitImage originalJSON bin processedImages si ii =
     (let st = fst si; images = snd si; i = fst ii; origImage = snd ii
      in case im_bufferView origImage of
           Some bvIndex \<Rightarrow>
             (let found = (case processedImages of
                             None \<Rightarrow> None
                           | Some pm \<Rightarrow> pm i);
                  imageBytes =
                    (case found of
                       Some bs \<Rightarrow> Inr bs
                     | None \<Rightarrow>
                         (if bvIndex < length (oj_bufferViews originalJSON)
                          then (let origBufferView = oj_bufferViews originalJSON ! bvIndex
                                in viewBytes bin (orZero (obv_byteOffset origBufferView))
                                     (obv_byteLength origBufferView))
                          else Inl UndefinedRead))
              in case imageBytes of
                   Inl e \<Rightarrow> Inl e
                 | Inr bs \<Rightarrow>
                     (let st1 = padTo 4 st;
                          newBufferViewIndex = length (bufferViews st1);
                          st2 = \<lparr>bufferData = bufferData st1 @ [bs],
                                 bufferViews = bufferViews st1 @
                                   [\<lparr>bv_byteOffset = currentOffset st1,
                                     bv_byteLength = length bs,
                                     bv_target = None, bv_meshopt = None\<rparr>],
                                 accessors = accessors st1,
                                 currentOffset = currentOffset st1 + length bs\<rparr>
                      in Inr (st2,
                              images @
                                [\<lparr>im_bufferView = Some newBufferViewIndex, im_uri = None,
                                  im_mimeType = truthyString (im_mimeType origImage),
                                  im_name = truthyString (im_name origImage),
                                  im_rest = []\<rparr>])))
         | None \<Rightarrow>
             (if truthyString (im_uri origImage) \<noteq> None then Inr (st, images @ [origImage])
              else Inr (st, images)))"

text \<open>A loop whose body can throw.\<close>

fun foldE :: "('s \<Rightarrow> 'x \<Rightarrow> 'e + 's) \<Rightarrow> 's \<Rightarrow> 'x list \<Rightarrow> 'e + 's" where
  "foldE f s [] = Inr s"
| "foldE f s (x # xs) = (case f s x of Inl e \<Rightarrow> Inl e | Inr s' \<Rightarrow> foldE f s' xs)"

definition emitImages ::
  "original_json \<Rightarrow> byte list option \<Rightarrow> (nat \<rightharpoonup> byte list) option \<Rightarrow> writer_state
     \<Rightarrow> write_error + writer_state \<times> image_json list option" where
  "emitImages originalJSON originalBinChunk processedImages st =
     (case oj_images originalJSON of
        None \<Rightarrow> Inr (st, None)
      | Some imgs \<Rightarrow>
          (case originalBinChunk of
             None \<Rightarrow> Inr (st, None)
           | Some bin \<Rightarrow>
               (case foldE (emitImage originalJSON bin processedImages) (st, [])
                       (zip [0..<length imgs] imgs) of
                  Inl e \<Rightarrow> Inl e
                | Inr r \<Rightarrow> Inr (fst r, Some (snd r)))))"

definition meshAccessorIndices :: "original_json \<Rightarrow> nat set" where
  "meshAccessorIndices originalJSON =
     (\<Union>mesh \<in> set (case oj_meshes originalJSON of None \<Rightarrow> [] | Some ms \<Rightarrow> ms).
        \<Union>prim \<in> set mesh.
          (case om_indices prim of None \<Rightarrow> {} | Some i \<Rightarrow> {i})
          \<union> snd ` set (om_attributes prim)
          \<union> (case om_targets prim of
               None \<Rightarrow> {}
             | Some ts \<Rightarrow> (\<Union>t \<in> set ts. snd ` set t)))"

definition copyAccessor ::
  "original_json \<Rightarrow> byte list \<Rightarrow> writer_state \<times> (nat \<rightharpoonup> nat) \<Rightarrow> nat
     \<Rightarrow> write_error + writer_state \<times> (nat \<rightharpoonup> nat)" where
  "copyAccessor originalJSON bin sr origAccIdx =
     (let st = fst sr; accessorRemapping = snd sr
      in if accessorRemapping origAccIdx \<noteq> None then Inr sr
         else if \<not> origAccIdx < length (oj_accessors originalJSON) then Inl UndefinedRead
         else
           (let origAccessor = oj_accessors originalJSON ! origAccIdx
            in if \<not> ra_bufferView origAccessor < length (oj_bufferViews originalJSON)
               then Inl UndefinedRead
               else
                 (let origBufferView = oj_bufferViews originalJSON ! ra_bufferView origAccessor;
                      componentSize = COMPONENT_SIZE (ra_componentType origAccessor);
                      numComponents = TYPE_COMPONENTS (ra_type origAccessor);
                      elementSize = componentSize * numComponents;
                      len = ra_count origAccessor * elementSize;
                      srcOffset = orZero (obv_byteOffset origBufferView)
                                  + orZero (ra_byteOffset origAccessor)
                  in case viewBytes bin srcOffset len of
                       Inl e \<Rightarrow> Inl e
                     | Inr srcData \<Rightarrow>
                         (let st1 = padTo componentSize st;
                              newBufferViewIndex = length (bufferViews st1);
                              newAccessorIndex = length (accessors st1);
                              newAccessor =
                                \<lparr>ac_bufferView = newBufferViewIndex,
                                  ac_componentType = ra_componentType origAccessor,
                                  ac_count = real (ra_count origAccessor),
                                  ac_type = ra_type origAccessor,
                                  ac_normalized = (if ra_normalized origAccessor = Some True
                                                   then Some True else None),
                                  ac_min = ra_min origAccessor,
                                  ac_max = ra_max origAccessor\<rparr>
                          in Inr (\<lparr>bufferData = bufferData st1 @ [srcData],
                                    bufferViews = bufferViews st1 @
                                      [\<lparr>bv_byteOffset = currentOffset st1, bv_byteLength = len,
                                        bv_target = None, bv_meshopt = None\<rparr>],
                                    accessors = accessors st1 @ [newAccessor],
                                    currentOffset = currentOffset st1 + len\<rparr>,
                                  accessorRemapping(origAccIdx \<mapsto> newAccessorIndex))))))"

definition copyIfForeign ::
  "original_json \<Rightarrow> byte list \<Rightarrow> writer_state \<times> (nat \<rightharpoonup> nat) \<Rightarrow> nat
     \<Rightarrow> write_error + writer_state \<times> (nat \<rightharpoonup> nat)" where
  "copyIfForeign originalJSON bin sr accIdx =
     (if accIdx \<notin> meshAccessorIndices originalJSON then copyAccessor originalJSON bin sr accIdx
      else Inr sr)"

definition animationAccessorRefs :: "original_json \<Rightarrow> nat list" where
  "animationAccessorRefs originalJSON =
     (case oj_animations originalJSON of
        None \<Rightarrow> []
      | Some anims \<Rightarrow>
          concat (map (\<lambda>anim. concat (map (\<lambda>sampler. [as_input sampler, as_output sampler])
                                           (an_samplers anim))) anims))
     @ (case oj_skins originalJSON of
          None \<Rightarrow> []
        | Some skins \<Rightarrow>
            concat (map (\<lambda>skin. case sk_inverseBindMatrices skin of
                                  None \<Rightarrow> [] | Some i \<Rightarrow> [i]) skins))"

definition remapIndex :: "(nat \<rightharpoonup> nat) \<Rightarrow> nat \<Rightarrow> nat" where
  "remapIndex accessorRemapping i = (case accessorRemapping i of None \<Rightarrow> i | Some j \<Rightarrow> j)"

definition patchAnimation :: "(nat \<rightharpoonup> nat) \<Rightarrow> animation \<Rightarrow> animation" where
  "patchAnimation accessorRemapping anim =
     anim\<lparr>an_samplers :=
            map (\<lambda>sampler. sampler\<lparr>as_input := remapIndex accessorRemapping (as_input sampler),
                                   as_output := remapIndex accessorRemapping (as_output sampler)\<rparr>)
                (an_samplers anim)\<rparr>"

definition patchSkin :: "(nat \<rightharpoonup> nat) \<Rightarrow> skin \<Rightarrow> skin" where
  "patchSkin accessorRemapping sk =
     sk\<lparr>sk_inverseBindMatrices :=
          map_option (remapIndex accessorRemapping) (sk_inverseBindMatrices sk)\<rparr>"

definition emitAnimationsAndSkins ::
  "original_json \<Rightarrow> byte list option \<Rightarrow> writer_state
     \<Rightarrow> write_error + writer_state \<times> animation list option \<times> skin list option" where
  "emitAnimationsAndSkins originalJSON originalBinChunk st =
     (case originalBinChunk of
        None \<Rightarrow> Inr (st, oj_animations originalJSON, oj_skins originalJSON)
      | Some bin \<Rightarrow>
          (if oj_animations originalJSON \<noteq> None \<or> oj_skins originalJSON \<noteq> None
           then (case foldE (copyIfForeign originalJSON bin) (st, Map.empty)
                        (animationAccessorRefs originalJSON) of
                   Inl e \<Rightarrow> Inl e
                 | Inr sr \<Rightarrow>
                     Inr (fst sr,
                          map_option (map (patchAnimation (snd sr))) (oj_animations originalJSON),
                          map_option (map (patchSkin (snd sr))) (oj_skins originalJSON)))
           else Inr (st, oj_animations originalJSON, oj_skins originalJSON)))"


text \<open>
  \<open>applyQuantizationTransforms\<close> folds the de-quantization transform of a mesh into the
  node that carries it. \<open>a[i] = v\<close> on an array extends it when \<open>i\<close> is past the end.
\<close>

definition jsArraySet :: "jsnum list \<Rightarrow> nat \<Rightarrow> jsnum \<Rightarrow> jsnum list" where
  "jsArraySet a i v =
     (if i < length a then a[i := v] else a @ replicate (i - length a) NaN @ [v])"

definition rotateVectorByQuaternion :: "jsnum list \<Rightarrow> jsnum list \<Rightarrow> jsnum list" where
  "rotateVectorByQuaternion v q =
     (let qx = js_get q 0; qy = js_get q 1; qz = js_get q 2; qw = js_get q 3;
          vx = js_get v 0; vy = js_get v 1; vz = js_get v 2;
          cx = js_add (js_sub (js_mul qy vz) (js_mul qz vy)) (js_mul qw vx);
          cy = js_add (js_sub (js_mul qz vx) (js_mul qx vz)) (js_mul qw vy);
          cz = js_add (js_sub (js_mul qx vy) (js_mul qy vx)) (js_mul qw vz)
      in [js_add vx (js_mul (Fin 2) (js_sub (js_mul qy cz) (js_mul qz cy))),
          js_add vy (js_mul (Fin 2) (js_sub (js_mul qz cx) (js_mul qx cz))),
          js_add vz (js_mul (Fin 2) (js_sub (js_mul qx cy) (js_mul qy cx)))])"

definition fixNode :: "optimized_primitive list \<Rightarrow> node \<Rightarrow> node" where
  "fixNode primitives nd =
     (case nd_mesh nd of
        None \<Rightarrow> nd
      | Some m \<Rightarrow>
          (case filter (\<lambda>p. op_meshIndex p = m) primitives of
             [] \<Rightarrow> nd
           | p # _ \<Rightarrow>
               (case map_of (op_attributes p) ''POSITION'' of
                  None \<Rightarrow> nd
                | Some posAttr \<Rightarrow>
                    (case oa_transform posAttr of
                       None \<Rightarrow> nd
                     | Some transform \<Rightarrow>
                         (let dqScale = qt_scale transform;
                              dqOffset = qt_translation transform;
                              origScale = (case nd_scale nd of
                                             None \<Rightarrow> [Fin 1, Fin 1, Fin 1] | Some sc \<Rightarrow> sc);
                              origRotation = (case nd_rotation nd of
                                                None \<Rightarrow> [Fin 0, Fin 0, Fin 0, Fin 1]
                                              | Some r \<Rightarrow> r);
                              newScale =
                                (case nd_scale nd of
                                   None \<Rightarrow> [js_get dqScale 0, js_get dqScale 1, js_get dqScale 2]
                                 | Some sc \<Rightarrow>
                                     (let s0 = jsArraySet sc 0 (js_mul (js_get sc 0) (js_get dqScale 0));
                                          s1 = jsArraySet s0 1 (js_mul (js_get s0 1) (js_get dqScale 1))
                                      in jsArraySet s1 2 (js_mul (js_get s1 2) (js_get dqScale 2))));
                              scaled = [js_mul (js_get origScale 0) (js_get dqOffset 0),
                                        js_mul (js_get origScale 1) (js_get dqOffset 1),
                                        js_mul (js_get origScale 2) (js_get dqOffset 2)];
                              scaledOffset = (if nd_rotation nd \<noteq> None
                                              then rotateVectorByQuaternion scaled origRotation
                                              else scaled);
                              newTranslation =
                                (case nd_translation nd of
                                   None \<Rightarrow> scaledOffset
                                 | Some t \<Rightarrow>
                                     (let t0 = jsArraySet t 0 (js_add (js_get t 0) (js_get scaledOffset 0));
                                          t1 = jsArraySet t0 1 (js_add (js_get t0 1) (js_get scaledOffset 1))
                                      in jsArraySet t1 2 (js_add (js_get t1 2) (js_get scaledOffset 2))))
                          in nd\<lparr>nd_scale := Some newScale,
                                nd_translation := Some newTranslation\<rparr>)))))"

definition applyQuantizationTransforms ::
  "optimized_primitive list \<Rightarrow> node list option \<Rightarrow> node list option" where
  "applyQuantizationTransforms primitives nodes = map_option (map (fixNode primitives)) nodes"

text \<open>
  The document \<open>json\<close> and the function itself: first the document and the combined
  buffer, then the GLB framing around \<open>JSON.stringify(json)\<close>, encoded by the platform
  (the parameter \<open>stringify\<close>).
\<close>

record gltf_json =
  extensionsUsed :: "string list"
  extensionsRequired :: "string list"
  gj_passthrough :: "(string \<times> json) list"
  gj_nodes :: "node list option"
  gj_animations :: "animation list option"
  gj_skins :: "skin list option"
  gj_meshes :: "gltf_mesh list"
  gj_accessors :: "accessor list"
  gj_images :: "image_json list option"
  gj_bufferViews :: "buffer_view list"
  gj_bufferByteLength :: nat

definition useMeshopt :: "write_options \<Rightarrow> bool" where
  "useMeshopt options = (meshoptCompression options \<noteq> Some False)"

definition writeGLB_document ::
  "encoder \<Rightarrow> (typed_array \<Rightarrow> byte list) \<Rightarrow> optimized_data \<Rightarrow> write_options
     \<Rightarrow> (nat \<rightharpoonup> byte list) option \<Rightarrow> write_error + gltf_json \<times> byte list" where
  "writeGLB_document enc bytesOf optimizedData options processedImages =
     (let primitives = od_primitives optimizedData;
          originalJSON = od_originalJSON optimizedData;
          originalBinChunk = od_originalBinChunk optimizedData;
          useMeshoptCompression = useMeshopt options;
          exts = [''KHR_mesh_quantization'']
                 @ (if useMeshoptCompression then [''EXT_meshopt_compression''] else []);
          r1 = emitMeshes enc bytesOf useMeshoptCompression primitives
                 \<lparr>bufferData = [], bufferViews = [], accessors = [], currentOffset = 0\<rparr>
      in case emitImages originalJSON originalBinChunk processedImages (fst r1) of
           Inl e \<Rightarrow> Inl e
         | Inr r2 \<Rightarrow>
             (case emitAnimationsAndSkins originalJSON originalBinChunk (fst r2) of
                Inl e \<Rightarrow> Inl e
              | Inr r3 \<Rightarrow>
                  (let st = fst r3
                   in Inr (\<lparr>extensionsUsed = exts, extensionsRequired = exts,
                             gj_passthrough = oj_passthrough originalJSON,
                             gj_nodes = applyQuantizationTransforms primitives
                                          (oj_nodes originalJSON),
                             gj_animations = fst (snd r3), gj_skins = snd (snd r3),
                             gj_meshes = snd r1, gj_accessors = accessors st,
                             gj_images = snd r2, gj_bufferViews = bufferViews st,
                             gj_bufferByteLength = currentOffset st\<rparr>,
                           concat (bufferData st)))))"


text \<open>
  The words of the specification: no buffer view of the state carries compressed bytes
  unless compression is switched on.
\<close>

definition viewsOk :: "bool \<Rightarrow> writer_state \<Rightarrow> bool" where
  "viewsOk useMeshoptCompression st \<longleftrightarrow>
     (\<forall>bv \<in> set (bufferViews st). bv_meshopt bv \<noteq> None \<longrightarrow> useMeshoptCompression)"

text \<open>
  Concrete inputs used below: an encoder that is present but throws on every buffer, the
  bytes of a typed array taken as zeros, and an asset of one triangle with 16-bit
  indices and float positions, without images, animations or a binary chunk.
\<close>

definition failingEncoder :: encoder where
  "failingEncoder =
     \<lparr>supported = True, encodeIndexBuffer = (\<lambda>_ _ _. None),
      encodeVertexBuffer = (\<lambda>_ _ _. None)\<rparr>"

definition zeroBytes :: "typed_array \<Rightarrow> byte list" where
  "zeroBytes a = replicate (byteLength a) 0"

definition triangleIndices :: out_indices where
  "triangleIndices =
     \<lparr>oi_data = \<lparr>ta_kind = UNSIGNED_SHORT, ta_elems = [Fin 0, Fin 1, Fin 2]\<rparr>,
      oi_componentType = UNSIGNED_SHORT\<rparr>"

definition trianglePositions :: out_attribute where
  "trianglePositions =
     \<lparr>oa_data = \<lparr>ta_kind = FLOAT,
                  ta_elems = [Fin 0, Fin 0, Fin 0, Fin 1, Fin 0, Fin 0, Fin 0, Fin 1, Fin 0]\<rparr>,
      oa_componentType = FLOAT, oa_type = VEC3, oa_count = 3, oa_normalized = None,
      oa_min = None, oa_max = None, oa_transform = None\<rparr>"

definition triangleAsset :: optimized_data where
  "triangleAsset =
     \<lparr>od_primitives =
        [\<lparr>op_meshIndex = 0, op_primitiveIndex = 0, op_meshName = ''mesh_0'', op_mode = 4,
          op_material = None, op_attributes = [(''POSITION'', trianglePositions)],
          op_indices = Some triangleIndices,
          op_stats = \<lparr>originalVertices = 3, optimizedVertices = 3, originalBytes = 36,
                       optimizedBytes = 36\<rparr>\<rparr>],
      od_originalJSON =
        \<lparr>oj_passthrough = [], oj_nodes = None, oj_images = None, oj_bufferViews = [],
         oj_accessors = [], oj_animations = None, oj_skins = None, oj_meshes = None\<rparr>,
      od_originalBinChunk = None\<rparr>"
section \<open>Properties\<close>


subsection \<open>Numbers\<close>

lemma js_max_Fin: "js_max (Fin a) (Fin b) = Fin (max a b)"
  by simp

lemma js_gt_Fin: "js_gt (Fin a) (Fin b) \<longleftrightarrow> b < a"
  by simp

text \<open>Rounding to a double leaves a double as it is.\<close>

lemma roundHalfEven_of_int [simp]: "roundHalfEven (of_int n) = n"
  by (simp add: roundHalfEven_def)

lemma roundHalfEven_near: "\<bar>of_int (roundHalfEven x) - x\<bar> \<le> 1 / 2"
  unfolding roundHalfEven_def Let_def by (auto simp add: abs_le_iff)

lemma doubleUlp_pos: "0 < doubleUlp x"
  by (simp add: doubleUlp_def)

lemma binade_bounds:
  assumes "x \<noteq> 0"
  shows "2 powr of_int \<lfloor>log 2 \<bar>x\<bar>\<rfloor> \<le> \<bar>x\<bar>"
    and "\<bar>x\<bar> < 2 powr of_int (\<lfloor>log 2 \<bar>x\<bar>\<rfloor> + 1)"
  using floor_log_eq_powr_iff [of "\<bar>x\<bar>" 2 "\<lfloor>log 2 \<bar>x\<bar>\<rfloor>"] assms by auto

lemma toDouble_exact:
  assumes m: "\<bar>m\<bar> < 2 ^ 53" and k: "- 1074 \<le> k"
    and big: "\<bar>real_of_int m * 2 powr of_int k\<bar> < doubleLimit"
  shows "toDouble (of_int m * 2 powr of_int k) = Fin (of_int m * 2 powr of_int k)"
proof (cases "m = 0")
  case True
  then show ?thesis by (simp add: toDouble_def)
next
  case False
  define x :: real where "x = of_int m * 2 powr of_int k"
  have x0: "x \<noteq> 0" using False by (simp add: x_def)
  define e where "e = doubleExponent x"
  have absx: "\<bar>x\<bar> = of_int \<bar>m\<bar> * 2 powr of_int k"
    by (simp add: x_def abs_mult)
  have "of_int \<bar>m\<bar> < (2 :: real) ^ 53"
    using m by (metis of_int_less_numeral_power_cancel_iff)
  then have "\<bar>x\<bar> < 2 ^ 53 * 2 powr of_int k"
    unfolding absx by simp
  also have "\<dots> = 2 powr of_int (53 + k)"
    by (simp add: powr_add)
  finally have up: "\<bar>x\<bar> < 2 powr of_int (53 + k)" .
  have "2 powr of_int \<lfloor>log 2 \<bar>x\<bar>\<rfloor> < (2 :: real) powr of_int (53 + k)"
    using binade_bounds(1) [OF x0] up by linarith
  then have "\<lfloor>log 2 \<bar>x\<bar>\<rfloor> < 53 + k" by simp
  with k have ek: "e - 52 \<le> k"
    by (simp add: e_def doubleExponent_def)
  define j where "j = nat (k - (e - 52))"
  have kj: "k = (e - 52) + int j" using ek by (simp add: j_def)
  have u: "doubleUlp x = 2 powr of_int (e - 52)"
    by (simp add: doubleUlp_def e_def)
  have "x = of_int m * 2 powr of_int (int j) * 2 powr of_int (e - 52)"
    unfolding x_def by (subst kj) (simp add: powr_add)
  then have "x / doubleUlp x = of_int m * 2 powr of_int (int j)"
    unfolding u by simp
  also have "\<dots> = of_int (m * 2 ^ j)"
    by (simp add: powr_realpow)
  finally have q: "x / doubleUlp x = of_int (m * 2 ^ j)" .
  have "roundHalfEven (x / doubleUlp x) = m * 2 ^ j"
    unfolding q by (rule roundHalfEven_of_int)
  then have "of_int (roundHalfEven (x / doubleUlp x)) * doubleUlp x
             = x / doubleUlp x * doubleUlp x"
    unfolding q by simp
  also have "\<dots> = x" using doubleUlp_pos [of x] by simp
  finally have y: "of_int (roundHalfEven (x / doubleUlp x)) * doubleUlp x = x" .
  show ?thesis
    using x0 big y unfolding toDouble_def x_def [symmetric] Let_def by simp
qed

lemma toDouble_dyadic:
  assumes "\<bar>m\<bar> < 2 ^ 53" and "j \<le> 1074"
  shows "toDouble (of_int m / 2 ^ j) = Fin (of_int m / 2 ^ j)"
proof -
  have e: "real_of_int m / 2 ^ j = real_of_int m * 2 powr of_int (- int j)" for m :: int
    by (simp add: powr_minus powr_realpow field_simps)
  have "\<bar>real_of_int m / 2 ^ j\<bar> \<le> \<bar>real_of_int m\<bar>"
  proof -
    have "1 \<le> (2 :: real) ^ j" by simp
    then have "\<bar>real_of_int m\<bar> * 1 \<le> \<bar>real_of_int m\<bar> * 2 ^ j"
      by (intro mult_left_mono) simp_all
    then show ?thesis by (simp add: abs_divide field_simps)
  qed
  also have "\<dots> < 2 ^ 53"
    using assms(1) by (metis of_int_abs of_int_less_numeral_power_cancel_iff)
  also have "\<dots> < doubleLimit"
    unfolding doubleLimit_def by (rule power_strict_increasing) simp_all
  finally have "\<bar>real_of_int m * 2 powr of_int (- int j)\<bar> < doubleLimit" by (simp only: e)
  then show ?thesis
    using toDouble_exact [of m "- int j"] assms unfolding e by simp
qed

lemma toDouble_of_int: "\<bar>m\<bar> < 2 ^ 53 \<Longrightarrow> toDouble (of_int m) = Fin (of_int m)"
  using toDouble_dyadic [of m 0] by simp

lemma toDouble_0 [simp]: "toDouble 0 = Fin 0"
  by (simp add: toDouble_def)


lemma isFloat32_I:
  "\<bar>m\<bar> < 2 ^ 24 \<Longrightarrow> - 149 \<le> k \<Longrightarrow> k \<le> 104 \<Longrightarrow> a = float32Value m k
   \<Longrightarrow> isFloat32 (Fin a)"
  unfolding isFloat32_def jsnum.case by blast


lemma isFloat32_dyadic:
  assumes "\<bar>m\<bar> < 2 ^ 24" and "j \<le> 149"
  shows "isFloat32 (Fin (of_int m / 2 ^ j))"
proof -
  have "real_of_int m / 2 ^ j = real_of_int m * 2 powr of_int (- int j)"
    by (simp add: powr_minus powr_realpow field_simps)
  then show ?thesis
    using assms by (intro isFloat32_I [of m "- int j"]) (simp_all add: float32Value_def)
qed

lemma isFloat32_special [simp]: "isFloat32 NaN" "isFloat32 PosInf" "isFloat32 NegInf"
  by (simp_all add: isFloat32_def)

subsection \<open>mergeImportance\<close>

text \<open>
  C10. \<open>mergeImportance\<close> returns null when both inputs are null, the other array
  unchanged when exactly one is null, and for two arrays an array as long as the longer
  one whose entry \<open>i\<close> is \<open>Math.max(t_i, v_i)\<close>, an entry past the end of the shorter
  array counting as 0.
\<close>

theorem mergeImportance_spec:
  "mergeImportance None None = None
   \<and> mergeImportance None (Some vi) = Some vi
   \<and> mergeImportance (Some ti) None = Some ti
   \<and> (\<exists>m. mergeImportance (Some ti) (Some vi) = Some m
          \<and> length m = max (length ti) (length vi)
          \<and> (\<forall>i < length m.
                m ! i = js_max (if i < length ti then ti ! i else Fin 0)
                               (if i < length vi then vi ! i else Fin 0)))"
  by (simp add: mergeImportance_def toFloat32_def)

theorem mergeImportance_spec_witness:
  "mergeImportance (Some [Fin 1, Fin 3]) (Some [Fin 2]) = Some [Fin 2, Fin 3]
   \<and> mergeImportance None (Some [Fin 2]) = Some [Fin 2]"
proof -
  obtain m where m: "mergeImportance (Some [Fin 1, Fin 3]) (Some [Fin 2]) = Some m"
    and len: "length m = 2"
    and el: "\<forall>i < length m.
               m ! i = js_max (if i < length [Fin 1, Fin 3] then [Fin 1, Fin 3] ! i else Fin 0)
                              (if i < length [Fin 2] then [Fin 2] ! i else Fin 0)"
    using mergeImportance_spec [of "[Fin 2]" "[Fin 1, Fin 3]"] by auto
  from el len have "m ! 0 = Fin 2" "m ! 1 = Fin 3" by simp_all
  with len have "m = [Fin 2, Fin 3]"
    by (cases m; cases "tl m"; cases "tl (tl m)") auto
  with m show ?thesis
    using mergeImportance_spec [of "[Fin 2]" "[Fin 1, Fin 3]"] by simp
qed

subsection \<open>buildVertexLock\<close>

lemma toDouble_quarter: "toDouble (1 / 4) = Fin (1 / 4)"
  using toDouble_dyadic [of 1 2] by simp

text \<open>
  C5. For every importance array, seam set and threshold \<open>T\<close> handed to
  \<open>buildVertexLock\<close>, the lock mask has one entry per vertex and \<open>lock[v] = 1\<close> exactly
  when \<open>v\<close> is a seam vertex with \<open>score(v) > 0.5 * T\<close> or a non-seam vertex with
  \<open>score(v) > T\<close>. Called without a threshold, \<open>buildVertexLock\<close> uses 0.7. The mask of
  \<open>simplifyPrimitive\<close> is the one for the option \<open>importanceThreshold\<close> when that is a
  number other than 0 and \<open>NaN\<close>, and the one for 0.5 (seam threshold 0.25) when the
  option is absent, 0 or \<open>NaN\<close>.
\<close>

theorem buildVertexLock_spec:
  "length (buildVertexLock (Some imp) seams (Some T)) = length imp
   \<and> (\<forall>v < length imp.
         (buildVertexLock (Some imp) seams (Some T) ! v = 1) =
         ((v \<in> seams \<and> js_gt (imp ! v) (js_mul T (Fin (1 / 2))))
          \<or> (v \<notin> seams \<and> js_gt (imp ! v) T))
         \<and> buildVertexLock (Some imp) seams (Some T) ! v \<in> {0, 1})
   \<and> buildVertexLock (Some imp) seams None
       = buildVertexLock (Some imp) seams (Some (toDouble (7 / 10)))
   \<and> (T \<noteq> NaN \<and> T \<noteq> Fin 0 \<longrightarrow>
         vertexLock imp seams (Some T) = buildVertexLock (Some imp) seams (Some T))
   \<and> vertexLock imp seams None = buildVertexLock (Some imp) seams (Some (Fin (1 / 2)))
   \<and> vertexLock imp seams (Some (Fin 0)) = buildVertexLock (Some imp) seams (Some (Fin (1 / 2)))
   \<and> vertexLock imp seams (Some NaN) = buildVertexLock (Some imp) seams (Some (Fin (1 / 2)))
   \<and> js_mul (Fin (1 / 2)) (Fin (1 / 2)) = Fin (1 / 4)"
proof -
  have "js_truthy T" if "T \<noteq> NaN" "T \<noteq> Fin 0"
    using that by (cases T) simp_all
  then show ?thesis
    by (auto simp add: buildVertexLock_def vertexLock_def importanceThresholdOrDefault_def
          Let_def toDouble_quarter)
qed

theorem buildVertexLock_spec_witness:
  "vertexLock [Fin (3 / 8), Fin (3 / 8), Fin (5 / 8)] {0} (Some (Fin (1 / 2))) = [1, 0, 1]"
proof -
  let ?imp = "[Fin (3 / 8), Fin (3 / 8), Fin (5 / 8)]"
  let ?m = "buildVertexLock (Some ?imp) {0} (Some (Fin (1 / 2)))"
  note S = buildVertexLock_spec [of ?imp "{0}" "Fin (1 / 2)"]
  have e: "vertexLock ?imp {0} (Some (Fin (1 / 2))) = ?m"
    using S by simp
  have q: "js_mul (Fin (1 / 2)) (Fin (1 / 2)) = Fin (1 / 4)"
    using S by simp
  have len: "length ?m = 3" using S by simp
  note el = S [THEN conjunct2, THEN conjunct1, rule_format]
  have "?m ! 0 = 1" using el [of 0] q by simp
  moreover have "?m ! 1 = 0" using el [of 1] q by auto
  moreover have "?m ! 2 = 1" using el [of 2] q by simp
  ultimately have "?m = [1, 0, 1]"
    using len by (cases ?m; cases "tl ?m"; cases "tl (tl ?m)") auto
  with e show ?thesis by simp
qed

text \<open>
  The equivalence of the claim fails at a supplied threshold of 0: the score 0.125 of a
  non-seam vertex exceeds \<open>T = 0\<close>, and \<open>simplifyPrimitive\<close> leaves the vertex unlocked,
  because \<open>options.importanceThreshold || 0.5\<close> has replaced the 0 by 0.5.
\<close>

theorem vertexLock_counterexample:
  "vertexLock [Fin (1 / 8)] {} (Some (Fin 0)) = [0] \<and> js_gt (Fin (1 / 8)) (Fin 0)"
  by (simp add: vertexLock_def buildVertexLock_def importanceThresholdOrDefault_def Let_def)
subsection \<open>findUVSeams\<close>
























subsection \<open>quantizeNormals\<close>

lemma foldl_update3:
  assumes st: "\<And>q i. step q i = q[i * 3 := f i 0, i * 3 + 1 := f i 1, i * 3 + 2 := f i (2::nat)]"
  shows "length (foldl step q [0..<n]) = length q"
    and "j < length q \<Longrightarrow>
         foldl step q [0..<n] ! j = (if j div 3 < n then f (j div 3) (j mod 3) else q ! j)"
proof -
  have unf: "foldl step q [0..<Suc n] =
        (foldl step q [0..<n])[n * 3 := f n 0, n * 3 + 1 := f n 1, n * 3 + 2 := f n 2]" for n
    using st [of "foldl step q [0..<n]" n] by simp
  show len: "length (foldl step q [0..<n]) = length q" for n
    by (induction n) (simp_all only: unf length_list_update, simp)
  show "j < length q \<Longrightarrow>
         foldl step q [0..<n] ! j = (if j div 3 < n then f (j div 3) (j mod 3) else q ! j)"
  proof (induction n)
    case 0
    then show ?case by simp
  next
    case (Suc n)
    let ?q = "foldl step q [0..<n]"
    have jl: "j < length ?q" using Suc.prems len by simp
    have ih: "?q ! j = (if j div 3 < n then f (j div 3) (j mod 3) else q ! j)"
      using Suc by simp
    consider (a) "j = n * 3" | (b) "j = n * 3 + 1" | (c) "j = n * 3 + 2" | (d) "j div 3 \<noteq> n"
      by arith
    then show ?case
    proof cases
      case a
      then have "j div 3 = n" "j mod 3 = 0" by presburger+
      with a jl show ?thesis unfolding unf by simp
    next
      case b
      then have "j div 3 = n" "j mod 3 = 1" by presburger+
      with b jl show ?thesis unfolding unf by simp
    next
      case c
      then have "j div 3 = n" "j mod 3 = 2" by presburger+
      with c jl show ?thesis unfolding unf by simp
    next
      case d
      then have "j \<noteq> n * 3" "j \<noteq> n * 3 + 1" "j \<noteq> n * 3 + 2" by auto
      moreover have "j div 3 < Suc n \<longleftrightarrow> j div 3 < n" using d by arith
      ultimately show ?thesis unfolding unf using ih by simp
    qed
  qed
qed


lemma trunc_real_of_int: "trunc_real (of_int k) = k"
  by (simp add: trunc_real_def)

lemma wrap_signed_id:
  "- (2 ^ (bits - 1)) \<le> k \<Longrightarrow> k < 2 ^ (bits - 1) \<Longrightarrow> 0 < bits \<Longrightarrow> wrap_signed bits k = k"
proof -
  assume a: "- (2 ^ (bits - 1)) \<le> k" "k < 2 ^ (bits - 1)" "0 < bits"
  have p: "(2::int) ^ bits = 2 * 2 ^ (bits - 1)"
    using a(3) by (cases bits) simp_all
  have "(k + 2 ^ (bits - 1)) mod 2 ^ bits = k + 2 ^ (bits - 1)"
    using a p by (intro mod_pos_pos_trivial) auto
  then show ?thesis by (simp add: wrap_signed_def)
qed

lemma js_add_NaN [simp]: "js_add x NaN = NaN" "js_add NaN x = NaN"
  by (cases x; simp)+

lemma js_mul_NaN [simp]: "js_mul x NaN = NaN" "js_mul NaN x = NaN"
  by (cases x; simp)+

lemma length_normalBytes: "length (normalBytes x y z) = 3"
  by (simp add: normalBytes_def Let_def)

lemma normalBytes_zero: "normalBytes (Fin 0) (Fin 0) (Fin 0) = [0, 0, 0]"
  by (simp add: normalBytes_def toInt8_def wrap_signed_def trunc_real_def)

lemma quantizeNormals_length: "length (quantized (quantizeNormals normals)) = length normals"
  using foldl_update3(1) [of "normalStep normals" "normalByteAt normals", OF normalStep_def]
  by (simp add: quantizeNormals_def)

lemma quantizeNormals_nth:
  assumes "j < length normals"
  shows "quantized (quantizeNormals normals) ! j =
         normalBytes (js_get normals (j div 3 * 3)) (js_get normals (j div 3 * 3 + 1))
           (js_get normals (j div 3 * 3 + 2)) ! (j mod 3)"
proof -
  have "j div 3 < vertexLoopCount normals" using assms unfolding vertexLoopCount_def by arith
  then show ?thesis
    using assms foldl_update3(2) [of "normalStep normals" "normalByteAt normals" j
        "replicate (length normals) 0" "vertexLoopCount normals", OF normalStep_def]
    by (simp add: quantizeNormals_def normalByteAt_def)
qed

text \<open>
  C9. \<open>quantizeNormals\<close> does not keep every output in \<open>[-127, 127]\<close>. For the
  \<open>Float32Array\<close> \<open>[1.0078125, NaN, 0]\<close> the length of the vector is \<open>NaN\<close>, the test
  \<open>len > 0\<close> fails and the components are quantized as they are:
  \<open>1.0078125 * 127 = 127.9921875\<close> rounds to 128, which the \<open>Int8Array\<close> store wraps to
  \<open>-128\<close>. The comment above the stores reads "Quantize to [-127, 127]".
\<close>

theorem quantizeNormals_NaN_wraps:
  "quantized (quantizeNormals [Fin (129 / 128), NaN, Fin 0]) = [- 128, 0, 0]"
proof -
  have "toDouble (129 / 128 * 127) = Fin (16383 / 128)"
    using toDouble_dyadic [of 16383 7] by simp
  then show ?thesis
    by (simp add: quantizeNormals_def vertexLoopCount_def normalStep_def normalByteAt_def
        normalBytes_def js_get_def toInt8_def wrap_signed_def trunc_real_def)
qed

subsection \<open>parseGLB\<close>

lemma and_not_3: "(k::int) AND NOT 3 = k - k mod 4"
proof -
  have m: "(3::int) = mask 2" by (simp add: mask_eq_exp_minus_1)
  have "k AND NOT (mask 2) = push_bit 2 (drop_bit 2 k)"
  proof (rule bit_eqI)
    fix n
    have e: "\<not> n < 2 \<Longrightarrow> Suc (Suc (n - 2)) = n" by arith
    show "bit (k AND NOT (mask 2)) n \<longleftrightarrow> bit (push_bit 2 (drop_bit 2 k)) n"
      using e by (auto simp: bit_simps)
  qed
  also have "\<dots> = k div 4 * 4" by (simp add: push_bit_eq_mult drop_bit_eq_div)
  also have "\<dots> = k - k mod 4" by (simp add: minus_mod_eq_div_mult)
  finally show ?thesis unfolding m .
qed

lemma alignOffset_eq:
  assumes "0 \<le> off" "off + 3 < 2 ^ 31"
  shows "alignOffset off = off + (4 - off mod 4) mod 4"
proof -
  have "wrap_signed 32 (off + 3) = off + 3"
    using assms by (intro wrap_signed_id) auto
  then have "alignOffset off = (off + 3) - (off + 3) mod 4"
    unfolding alignOffset_def and_not_3 by simp
  also have "\<dots> = off + (4 - off mod 4) mod 4" by presburger
  finally show ?thesis .
qed

lemma length_encodeU32 [simp]: "length (encodeU32 n) = 4"
  by (simp add: encodeU32_def)

lemma u32_recompose:
  fixes n :: nat
  assumes "n < 2 ^ 32"
  shows "n mod 256 + 256 * (n div 256 mod 256) + 65536 * (n div 65536 mod 256)
         + 16777216 * (n div 16777216 mod 256) = n"
proof -
  define q1 where "q1 = n div 256"
  define q2 where "q2 = q1 div 256"
  define q3 where "q3 = q2 div 256"
  define r0 where "r0 = n mod 256"
  define r1 where "r1 = q1 mod 256"
  define r2 where "r2 = q2 mod 256"
  have e0: "n = r0 + 256 * q1" by (simp add: r0_def q1_def)
  have e1: "q1 = r1 + 256 * q2" by (simp add: r1_def q2_def)
  have e2: "q2 = r2 + 256 * q3" by (simp add: r2_def q3_def)
  have d2: "n div 65536 = q2" unfolding q2_def q1_def by (simp add: div_mult2_eq [symmetric])
  have d3: "n div 16777216 = q3" unfolding q3_def q2_def q1_def
    by (simp add: div_mult2_eq [symmetric])
  have "q3 < 256" unfolding d3 [symmetric] using assms by (simp add: div_less_iff_less_mult)
  then have m3: "q3 mod 256 = q3" by simp
  have "r0 + 256 * r1 + 65536 * r2 + 16777216 * q3 = n"
    using e0 e1 e2 by linarith
  then show ?thesis
    unfolding d2 d3 m3 by (simp only: r0_def r1_def r2_def q1_def)
qed

lemma getUint32_encodeU32:
  assumes "n < 2 ^ 32"
  shows "getUint32 (pre @ encodeU32 n @ rest) (int (length pre)) = Some n"
proof -
  have "getUint32 (pre @ encodeU32 n @ rest) (int (length pre)) =
        Some (n mod 256 + 256 * (n div 256 mod 256) + 65536 * (n div 65536 mod 256)
              + 16777216 * (n div 16777216 mod 256))"
    by (simp add: getUint32_def encodeU32_def nth_append unat_of_nat)
  then show ?thesis unfolding u32_recompose [OF assms] .
qed

lemma length_encodeChunk:
  "length (encodeChunk c) = 8 + length (snd c) + padLength (length (snd c))"
  by (simp add: encodeChunk_def)

lemma padLength_cases:
  "(n mod 4 = 0 \<and> padLength n = 0) \<or> (n mod 4 = 1 \<and> padLength n = 3)
   \<or> (n mod 4 = 2 \<and> padLength n = 2) \<or> (n mod 4 = 3 \<and> padLength n = 1)"
proof -
  have "n mod 4 < 4" by simp
  then consider "n mod 4 = 0" | "n mod 4 = 1" | "n mod 4 = 2" | "n mod 4 = 3" by linarith
  then show ?thesis by cases (simp_all add: padLength_def)
qed

lemma pad_mod4: "(n + padLength n) mod 4 = 0"
proof -
  have e: "(n + padLength n) mod 4 = (n mod 4 + padLength n) mod 4"
    by (simp add: mod_add_left_eq)
  show ?thesis
    using padLength_cases [of n] unfolding e by (elim disjE conjE) (simp_all only:, simp_all)
qed

lemma length_encodeChunk_mod4: "length (encodeChunk c) mod 4 = 0"
proof -
  have "4 dvd length (snd c) + padLength (length (snd c))"
    using pad_mod4 [of "length (snd c)"] by (simp only: mod_eq_0_iff_dvd)
  moreover have "(4::nat) dvd 8" by simp
  ultimately have "4 dvd 8 + (length (snd c) + padLength (length (snd c)))"
    by (rule dvd_add [rotated])
  then show ?thesis by (simp add: length_encodeChunk add.assoc mod_eq_0_iff_dvd)
qed

lemma pad_int:
  assumes "4 dvd lp"
  shows "(4 - (int lp + 8 + int n) mod 4) mod 4 = int (padLength n)"
proof -
  have "int lp mod 4 = 0" using assms by presburger
  then have "(int lp + 8 + int n) mod 4 = int n mod 4" by presburger
  moreover have "int (n mod 4) = int n mod 4" by (simp add: of_nat_mod)
  ultimately have m: "(int lp + 8 + int n) mod 4 = int (n mod 4)" by (simp only:)
  show ?thesis
    using padLength_cases [of n] unfolding m by (elim disjE conjE) (simp_all only:, simp_all)
qed


lemma slice_middle:
  "slice (pre @ data @ rest) (int (length pre)) (int (length pre) + int (length data)) = data"
  by (simp add: slice_def Let_def)

lemma parseChunks_step:
  assumes m4: "4 dvd length pre"
    and lt: "int (length pre) < totalLen"
    and small: "int (length (pre @ encodeChunk c @ rest)) + 3 < 2 ^ 31"
    and ty: "fst c < 2 ^ 32"
  shows "parseChunks dj (pre @ encodeChunk c @ rest) totalLen (int (length pre)) js bin =
     (if fst c = 0x4E4F534A then
        (case dj (snd c) of
           None \<Rightarrow> Some (Inl SyntaxError)
         | Some j \<Rightarrow> parseChunks dj (pre @ encodeChunk c @ rest) totalLen
                       (int (length (pre @ encodeChunk c))) (Some j) bin)
      else if fst c = 0x004E4942 then
        parseChunks dj (pre @ encodeChunk c @ rest) totalLen
          (int (length (pre @ encodeChunk c))) js (Some (snd c))
      else parseChunks dj (pre @ encodeChunk c @ rest) totalLen
          (int (length (pre @ encodeChunk c))) js bin)"
proof -
  define buf where "buf = pre @ encodeChunk c @ rest"
  define d where "d = snd c"
  define tail where "tail = replicate (padLength (length d)) (0::byte) @ rest"
  define off where "off = int (length pre)"
  define off' where "off' = int (length (pre @ encodeChunk c))"
  have buf1: "buf = pre @ encodeU32 (length d) @ (encodeU32 (fst c) @ d @ tail)"
    by (simp add: buf_def encodeChunk_def d_def tail_def)
  have buf2: "buf = (pre @ encodeU32 (length d)) @ encodeU32 (fst c) @ (d @ tail)"
    by (simp add: buf1)
  have buf3: "buf = (pre @ encodeU32 (length d) @ encodeU32 (fst c)) @ d @ tail"
    by (simp add: buf1)
  have lc: "int (length (encodeChunk c)) = 8 + int (length d) + int (padLength (length d))"
    by (simp add: length_encodeChunk d_def)
  define bl where "bl = int (length (pre @ encodeChunk c @ rest))"
  have tl: "bl = off + 8 + int (length d) + int (padLength (length d)) + int (length rest)"
    unfolding bl_def off_def using lc by simp
  have lt: "off < totalLen" unfolding off_def by (rule lt)
  have o0: "0 \<le> off" by (simp add: off_def)
  have small': "bl + 3 < 2147483648" using small unfolding bl_def by simp
  have "int (length d) < 4294967296" using tl small' o0 by linarith
  then have dl: "length d < 2 ^ 32" by simp
  have g1: "getUint32 buf off = Some (length d)"
    unfolding buf1 off_def by (rule getUint32_encodeU32 [OF dl])
  have "getUint32 buf (int (length (pre @ encodeU32 (length d)))) = Some (fst c)"
    unfolding buf2 by (rule getUint32_encodeU32 [OF ty])
  then have g2: "getUint32 buf (off + 4) = Some (fst c)"
    by (simp add: off_def)
  have "slice buf (int (length (pre @ encodeU32 (length d) @ encodeU32 (fst c))))
          (int (length (pre @ encodeU32 (length d) @ encodeU32 (fst c))) + int (length d)) = d"
    unfolding buf3 by (rule slice_middle)
  then have sl: "slice buf (off + 8) (off + 8 + int (length d)) = d"
    by (simp add: off_def)
  have o': "off' = off + 8 + int (length d) + int (padLength (length d))"
    unfolding off'_def off_def using lc by simp
  have al: "alignOffset (off + 8 + int (length d)) = off'"
  proof -
    have "off + 8 + int (length d) + 3 < 2147483648" using tl small' by linarith
    then have b: "off + 8 + int (length d) + 3 < 2 ^ 31" by simp
    have nn: "0 \<le> off + 8 + int (length d)" by (simp add: off_def)
    have p: "(4 - (off + 8 + int (length d)) mod 4) mod 4 = int (padLength (length d))"
      unfolding off_def by (rule pad_int [OF m4])
    show ?thesis
      using alignOffset_eq [OF nn b] unfolding p o' .
  qed
  have "parseChunks dj buf totalLen off js bin =
     (if fst c = 0x4E4F534A then
        (case dj d of
           None \<Rightarrow> Some (Inl SyntaxError)
         | Some j \<Rightarrow> parseChunks dj buf totalLen off' (Some j) bin)
      else if fst c = 0x004E4942 then parseChunks dj buf totalLen off' js (Some d)
      else parseChunks dj buf totalLen off' js bin)"
    by (subst parseChunks.simps) (simp add: lt g1 g2 sl al Let_def)
  then show ?thesis unfolding buf_def d_def off_def off'_def .
qed

lemma parseChunks_walk_rest:
  assumes "4 dvd length pre"
    and "int (length (pre @ concat (map encodeChunk cs))) \<le> totalLen"
    and "int (length (pre @ concat (map encodeChunk cs) @ rest)) + 3 < 2 ^ 31"
    and "list_all (\<lambda>c. fst c < 2 ^ 32) cs"
  shows "parseChunks dj (pre @ concat (map encodeChunk cs) @ rest) totalLen (int (length pre))
           js bin
         = (case walkChunks dj cs js bin of
              Inl e \<Rightarrow> Some (Inl e)
            | Inr (js', bin') \<Rightarrow>
                parseChunks dj (pre @ concat (map encodeChunk cs) @ rest) totalLen
                  (int (length (pre @ concat (map encodeChunk cs)))) js' bin')"
  using assms
proof (induction cs arbitrary: pre js bin)
  case Nil
  then show ?case by simp
next
  case (Cons c cs)
  let ?body = "concat (map encodeChunk cs)"
  let ?pre' = "pre @ encodeChunk c"
  have buf: "pre @ concat (map encodeChunk (c # cs)) @ rest = pre @ encodeChunk c @ (?body @ rest)"
    by simp
  have buf': "pre @ encodeChunk c @ (?body @ rest) = ?pre' @ ?body @ rest" by simp
  have le: "length (pre @ concat (map encodeChunk (c # cs))) = length (?pre' @ ?body)" by simp
  have "0 < int (length (encodeChunk c))" by (simp add: length_encodeChunk)
  moreover have "int (length (pre @ concat (map encodeChunk (c # cs))))
      = int (length pre) + int (length (encodeChunk c)) + int (length ?body)" by simp
  ultimately have lt: "int (length pre) < totalLen" using Cons.prems(2) by linarith
  have small: "int (length (pre @ encodeChunk c @ (?body @ rest))) + 3 < 2 ^ 31"
    using Cons.prems(3) by simp
  have ty: "fst c < 2 ^ 32" using Cons.prems(4) by simp
  have d': "4 dvd length ?pre'"
    using Cons.prems(1) length_encodeChunk_mod4 [of c] by (simp add: mod_eq_0_iff_dvd)
  have tot': "int (length (?pre' @ ?body)) \<le> totalLen" using Cons.prems(2) by simp
  have small': "int (length (?pre' @ ?body @ rest)) + 3 < 2 ^ 31" using Cons.prems(3) by simp
  have tys: "list_all (\<lambda>c. fst c < 2 ^ 32) cs" using Cons.prems(4) by simp
  note ih = Cons.IH [OF d' tot' small' tys, folded buf']
  show ?case
    unfolding buf le parseChunks_step [OF Cons.prems(1) lt small ty]
    by (simp add: ih split: option.splits del: length_append append_assoc)
qed

lemma parseChunks_walk:
  assumes "4 dvd length pre"
    and "totalLen = int (length (pre @ concat (map encodeChunk cs)))"
    and "totalLen + 3 < 2 ^ 31"
    and "list_all (\<lambda>c. fst c < 2 ^ 32) cs"
  shows "parseChunks dj (pre @ concat (map encodeChunk cs)) totalLen (int (length pre)) js bin
         = Some (walkChunks dj cs js bin)"
proof -
  have e: "parseChunks dj (pre @ concat (map encodeChunk cs)) totalLen totalLen js' bin'
           = Some (Inr (js', bin'))" for js' bin'
    by (subst parseChunks.simps) simp
  show ?thesis
    using parseChunks_walk_rest [of pre cs totalLen "[]" dj js bin] assms e
    by (simp split: sum.splits prod.splits)
qed

text \<open>
  A file cut off inside a chunk header: fewer than 8 bytes remain where the header
  announces another chunk.
\<close>

lemma parseChunks_truncated:
  assumes "int (length buf) - 8 < off" and "off < totalLen" and "0 \<le> off"
  shows "parseChunks dj buf totalLen off js bin = Some (Inl RangeError)"
proof -
  have "getUint32 buf off = None \<or> getUint32 buf (off + 4) = None"
    using assms by (auto simp add: getUint32_def)
  then show ?thesis
    using assms(2) by (subst parseChunks.simps) (auto split: option.splits)
qed

lemma walkChunks_undecodable:
  assumes "\<exists>c \<in> set (jsonChunks cs). dj (snd c) = None"
  shows "walkChunks dj cs js bin = Inl SyntaxError"
  using assms
proof (induction cs arbitrary: js bin)
  case Nil
  then show ?case by (simp add: jsonChunks_def)
next
  case (Cons c cs)
  show ?case
  proof (cases "fst c = 0x4E4F534A")
    case True
    show ?thesis
    proof (cases "dj (snd c)")
      case None
      with True show ?thesis by simp
    next
      case (Some y)
      then have "\<exists>c \<in> set (jsonChunks cs). dj (snd c) = None"
        using Cons.prems True by (auto simp add: jsonChunks_def)
      then have "walkChunks dj cs js' bin' = Inl SyntaxError" for js' bin'
        by (rule Cons.IH)
      with True Some show ?thesis by simp
    qed
  next
    case False
    then have "\<exists>c \<in> set (jsonChunks cs). dj (snd c) = None"
      using Cons.prems by (auto simp add: jsonChunks_def)
    then have "walkChunks dj cs js' bin' = Inl SyntaxError" for js' bin'
      by (rule Cons.IH)
    with False show ?thesis by simp
  qed
qed

lemma walkChunks_decoded:
  assumes "\<forall>c \<in> set (jsonChunks cs). dj (snd c) \<noteq> None"
  shows "walkChunks dj cs js bin =
         Inr (if jsonChunks cs = [] then js else dj (snd (last (jsonChunks cs))),
              if binChunks cs = [] then bin else lastPayload (binChunks cs))"
  using assms
proof (induction cs arbitrary: js bin)
  case Nil
  then show ?case by (simp add: jsonChunks_def binChunks_def)
next
  case (Cons c cs)
  have ih: "walkChunks dj cs js' bin' =
         Inr (if jsonChunks cs = [] then js' else dj (snd (last (jsonChunks cs))),
              if binChunks cs = [] then bin' else lastPayload (binChunks cs))" for js' bin'
    using Cons.prems by (intro Cons.IH) (simp add: jsonChunks_def)
  show ?case
  proof (cases "fst c = 0x4E4F534A")
    case True
    then obtain j where j: "dj (snd c) = Some j" using Cons.prems by (auto simp: jsonChunks_def)
    show ?thesis using True j
      by (simp add: ih jsonChunks_def binChunks_def lastPayload_def)
  next
    case False
    then show ?thesis
      by (simp add: ih jsonChunks_def binChunks_def lastPayload_def)
  qed
qed

lemma glbBytes_header:
  assumes "wellFramed cs"
  shows "getUint32 (glbBytes cs) 0 = Some 0x46546C67"
    and "getUint32 (glbBytes cs) 4 = Some 2"
    and "getUint32 (glbBytes cs) 8 = Some (length (glbBytes cs))"
proof -
  let ?body = "concat (map encodeChunk cs)"
  have l: "length (glbBytes cs) = 12 + length ?body" by (simp add: glbBytes_def)
  have "int (length (glbBytes cs)) < 4294967296" using assms by (simp add: wellFramed_def)
  then have lt: "12 + length ?body < 2 ^ 32" unfolding l by simp
  show "getUint32 (glbBytes cs) 0 = Some 0x46546C67"
    using getUint32_encodeU32 [of "0x46546C67" "[]"] by (simp add: glbBytes_def)
  show "getUint32 (glbBytes cs) 4 = Some 2"
    using getUint32_encodeU32 [of 2 "encodeU32 0x46546C67"] by (simp add: glbBytes_def)
  show "getUint32 (glbBytes cs) 8 = Some (length (glbBytes cs))"
    using getUint32_encodeU32 [OF lt, of "encodeU32 0x46546C67 @ encodeU32 2" ?body]
    unfolding l by (simp add: glbBytes_def)
qed

lemma parseGLB_glbBytes:
  assumes "wellFramed cs"
  shows "parseGLB dj (glbBytes cs) =
     (case walkChunks dj cs None None of
        Inl e \<Rightarrow> Some (Inl e)
      | Inr (js, bin) \<Rightarrow>
          (case js of
             None \<Rightarrow> Some (Inl MissingJsonChunk)
           | Some j \<Rightarrow> if json_truthy j then Some (Inr \<lparr>json = j, binChunk = bin\<rparr>)
                       else Some (Inl MissingJsonChunk)))"
proof -
  let ?pre = "encodeU32 0x46546C67 @ encodeU32 2
       @ encodeU32 (12 + length (concat (map encodeChunk cs)))"
  have g: "glbBytes cs = ?pre @ concat (map encodeChunk cs)" by (simp add: glbBytes_def)
  have lp: "length ?pre = 12" by simp
  have d: "4 dvd length ?pre" unfolding lp by simp
  have t: "int (length (glbBytes cs)) = int (length (?pre @ concat (map encodeChunk cs)))"
    unfolding g ..
  have sm: "int (length (glbBytes cs)) + 3 < 2 ^ 31" and tys: "list_all (\<lambda>c. fst c < 2 ^ 32) cs"
    using assms by (simp_all add: wellFramed_def)
  have w: "parseChunks dj (glbBytes cs) (int (length (glbBytes cs))) 12 None None
           = Some (walkChunks dj cs None None)"
    using parseChunks_walk [OF d t sm tys, of dj None None] unfolding lp g [symmetric] by simp
  show ?thesis
    unfolding parseGLB_def glbBytes_header [OF assms] using w
    by (simp split: sum.splits option.splits prod.splits)
qed

text \<open>
  The loop need not end: a chunk length of \<open>0xFFFFFFF8\<close> at offset 12 takes the offset
  to \<open>2^32 + 12\<close>, which \<open>& ~3\<close> folds back to 12.
\<close>

lemma loop_facts:
  "getUint32 loopBytes 12 = Some 4294967288" "getUint32 loopBytes 16 = Some 0"
  "alignOffset (12 + 8 + 4294967288) = 12"
  by (simp_all add: getUint32_def loopBytes_def alignOffset_def wrap_signed_def)

lemma parseChunks_diverges:
  "parseChunks dj loopBytes 20 12 js bin = None"
proof (cases "parseChunks dj loopBytes 20 12 js bin")
  case None
  then show ?thesis .
next
  case (Some y)
  have "loopBytes = loopBytes \<and> (20::int) = 20 \<and> (12::int) = 12 \<longrightarrow> False"
  proof (rule parseChunks.raw_induct
      [where P = "\<lambda>d buf t off j b r. buf = loopBytes \<and> t = 20 \<and> off = 12 \<longrightarrow> False", OF _ Some])
    fix pc d buf t off j b r
    assume ih: "\<And>d' buf' t' off' j' b' r'. pc d' buf' t' off' j' b' = Some r'
                  \<Longrightarrow> buf' = loopBytes \<and> t' = 20 \<and> off' = 12 \<longrightarrow> False"
      and st: "(if off < t
      then case getUint32 buf off of None \<Rightarrow> Some (Inl RangeError)
           | Some chunkLength \<Rightarrow>
               case getUint32 buf (off + 4) of
               None \<Rightarrow> Some (Inl RangeError)
               | Some chunkType \<Rightarrow>
                   let chunkData = slice buf (off + 8) (off + 8 + int chunkLength);
                       offset' = alignOffset (off + 8 + int chunkLength)
                   in if chunkType = 1313821514
                      then case d chunkData of
                           None \<Rightarrow> Some (Inl SyntaxError)
                           | Some j' \<Rightarrow> pc d buf t offset' (Some j') b
                      else if chunkType = 5130562
                           then pc d buf t offset' j (Some chunkData)
                           else pc d buf t offset' j b
      else Some (Inr (j, b))) = Some r"
    show "buf = loopBytes \<and> t = 20 \<and> off = 12 \<longrightarrow> False"
    proof
      assume a: "buf = loopBytes \<and> t = 20 \<and> off = 12"
      have "pc d loopBytes 20 12 j b = Some r"
        using st a loop_facts by (simp add: Let_def)
      with ih show False by blast
    qed
  qed
  then show ?thesis by simp
qed

lemma parseGLB_diverges: "parseGLB dj loopBytes = None"
proof -
  have "getUint32 loopBytes 0 = Some 0x46546C67" "getUint32 loopBytes 4 = Some 2"
    "getUint32 loopBytes 8 = Some 20"
    by (simp_all add: getUint32_def loopBytes_def)
  then show ?thesis by (simp add: parseGLB_def parseChunks_diverges)
qed

lemma parseGLB_truncatedBytes:
  assumes tys: "list_all (\<lambda>c. fst c < 2 ^ 32) cs"
    and dec: "\<forall>c \<in> set (jsonChunks cs). dj (snd c) \<noteq> None"
    and r: "length rest < 8"
    and more: "12 + length (concat (map encodeChunk cs)) < t"
    and t32: "t < 2 ^ 32"
    and small: "int (length (truncatedBytes t cs rest)) + 3 < 2 ^ 31"
  shows "parseGLB dj (truncatedBytes t cs rest) = Some (Inl RangeError)"
proof -
  let ?body = "concat (map encodeChunk cs)"
  let ?pre = "encodeU32 0x46546C67 @ encodeU32 2 @ encodeU32 t"
  let ?buf = "truncatedBytes t cs rest"
  have g: "?buf = ?pre @ ?body @ rest" by (simp add: truncatedBytes_def)
  have lp: "length ?pre = 12" by simp
  have d: "4 dvd length ?pre" unfolding lp by simp
  have h0: "getUint32 ?buf 0 = Some 0x46546C67"
    using getUint32_encodeU32 [of "0x46546C67" "[]"] by (simp add: truncatedBytes_def)
  have h4: "getUint32 ?buf 4 = Some 2"
    using getUint32_encodeU32 [of 2 "encodeU32 0x46546C67"] by (simp add: truncatedBytes_def)
  have h8: "getUint32 ?buf 8 = Some t"
    using getUint32_encodeU32 [OF t32, of "encodeU32 0x46546C67 @ encodeU32 2" "?body @ rest"]
    by (simp add: truncatedBytes_def)
  have le: "int (length (?pre @ ?body)) \<le> int t" using more by simp
  have sm: "int (length (?pre @ ?body @ rest)) + 3 < 2 ^ 31" using small unfolding g .
  obtain js' bin' where w: "walkChunks dj cs None None = Inr (js', bin')"
    using walkChunks_decoded [OF dec, of None None] by blast
  have "parseChunks dj ?buf (int t) (int (length (?pre @ ?body))) js' bin'
        = Some (Inl RangeError)"
    using r more by (intro parseChunks_truncated) (simp_all add: truncatedBytes_def)
  then have "parseChunks dj ?buf (int t) 12 None None = Some (Inl RangeError)"
    using parseChunks_walk_rest [OF d le sm tys, of dj None None] w
    unfolding lp g [symmetric] by simp
  then show ?thesis
    unfolding parseGLB_def h0 h4 h8 by simp
qed

text \<open>
  C6. \<open>parseGLB\<close> fails with the magic-number error when the first four bytes are not
  \<open>0x46546C67\<close> and with the unsupported-version error when the version is not 2. On a
  file cut off inside a chunk header (the header announces more bytes than the whole
  chunks present, and fewer than 8 bytes follow them) the header read raises a
  \<open>RangeError\<close>. On a well-framed file (12-byte header whose length field is the file
  length, then whole padded chunks, shorter than \<open>2^31 - 3\<close> bytes) it raises a
  \<open>SyntaxError\<close> when some JSON chunk does not parse, fails with the
  missing-JSON-chunk error when no chunk has type \<open>0x4E4F534A\<close> or the last JSON chunk
  parses to a falsy value, and returns the parsed asset (the last JSON chunk's document,
  the last BIN chunk's payload) when every JSON chunk parses and the last one parses to
  a truthy value.
\<close>

theorem parseGLB_spec:
  "(getUint32 buf 0 = Some m \<and> m \<noteq> 0x46546C67 \<longrightarrow> parseGLB dj buf = Some (Inl BadMagic))
   \<and> (getUint32 buf 0 = Some 0x46546C67 \<and> getUint32 buf 4 = Some v \<and> v \<noteq> 2
        \<longrightarrow> parseGLB dj buf = Some (Inl (UnsupportedVersion v)))
   \<and> (list_all (\<lambda>c. fst c < 2 ^ 32) cs
        \<and> (\<forall>c \<in> set (jsonChunks cs). dj (snd c) \<noteq> None)
        \<and> length rest < 8 \<and> 12 + length (concat (map encodeChunk cs)) < t \<and> t < 2 ^ 32
        \<and> int (length (truncatedBytes t cs rest)) + 3 < 2 ^ 31
        \<longrightarrow> parseGLB dj (truncatedBytes t cs rest) = Some (Inl RangeError))
   \<and> (wellFramed cs \<and> (\<exists>c \<in> set (jsonChunks cs). dj (snd c) = None)
        \<longrightarrow> parseGLB dj (glbBytes cs) = Some (Inl SyntaxError))
   \<and> (wellFramed cs \<and> jsonChunks cs = []
        \<longrightarrow> parseGLB dj (glbBytes cs) = Some (Inl MissingJsonChunk))
   \<and> (wellFramed cs \<and> jsonChunks cs \<noteq> []
        \<and> (\<forall>c \<in> set (jsonChunks cs). dj (snd c) \<noteq> None)
        \<and> dj (snd (last (jsonChunks cs))) = Some j \<and> \<not> json_truthy j
        \<longrightarrow> parseGLB dj (glbBytes cs) = Some (Inl MissingJsonChunk))
   \<and> (wellFramed cs \<and> jsonChunks cs \<noteq> []
        \<and> (\<forall>c \<in> set (jsonChunks cs). dj (snd c) \<noteq> None)
        \<and> dj (snd (last (jsonChunks cs))) = Some j \<and> json_truthy j
        \<longrightarrow> parseGLB dj (glbBytes cs)
            = Some (Inr \<lparr>json = j, binChunk = lastPayload (binChunks cs)\<rparr>))"
proof (intro conjI impI)
  assume "getUint32 buf 0 = Some m \<and> m \<noteq> 0x46546C67"
  then show "parseGLB dj buf = Some (Inl BadMagic)" by (simp add: parseGLB_def)
next
  assume "getUint32 buf 0 = Some 0x46546C67 \<and> getUint32 buf 4 = Some v \<and> v \<noteq> 2"
  then show "parseGLB dj buf = Some (Inl (UnsupportedVersion v))" by (simp add: parseGLB_def)
next
  assume "list_all (\<lambda>c. fst c < 2 ^ 32) cs
        \<and> (\<forall>c \<in> set (jsonChunks cs). dj (snd c) \<noteq> None)
        \<and> length rest < 8 \<and> 12 + length (concat (map encodeChunk cs)) < t \<and> t < 2 ^ 32
        \<and> int (length (truncatedBytes t cs rest)) + 3 < 2 ^ 31"
  then show "parseGLB dj (truncatedBytes t cs rest) = Some (Inl RangeError)"
    by (intro parseGLB_truncatedBytes) simp_all
next
  assume a: "wellFramed cs \<and> (\<exists>c \<in> set (jsonChunks cs). dj (snd c) = None)"
  then have "walkChunks dj cs None None = Inl SyntaxError"
    by (intro walkChunks_undecodable) simp
  then show "parseGLB dj (glbBytes cs) = Some (Inl SyntaxError)"
    using a by (simp add: parseGLB_glbBytes)
next
  assume a: "wellFramed cs \<and> jsonChunks cs = []"
  then have "walkChunks dj cs None None =
      Inr (None, if binChunks cs = [] then None else lastPayload (binChunks cs))"
    using walkChunks_decoded [of cs dj None None] by simp
  then show "parseGLB dj (glbBytes cs) = Some (Inl MissingJsonChunk)"
    using a by (simp add: parseGLB_glbBytes)
next
  assume a: "wellFramed cs \<and> jsonChunks cs \<noteq> []
        \<and> (\<forall>c \<in> set (jsonChunks cs). dj (snd c) \<noteq> None)
        \<and> dj (snd (last (jsonChunks cs))) = Some j \<and> \<not> json_truthy j"
  then have "walkChunks dj cs None None =
      Inr (Some j, if binChunks cs = [] then None else lastPayload (binChunks cs))"
    using walkChunks_decoded [of cs dj None None] by simp
  then show "parseGLB dj (glbBytes cs) = Some (Inl MissingJsonChunk)"
    using a by (simp add: parseGLB_glbBytes)
next
  assume a: "wellFramed cs \<and> jsonChunks cs \<noteq> []
        \<and> (\<forall>c \<in> set (jsonChunks cs). dj (snd c) \<noteq> None)
        \<and> dj (snd (last (jsonChunks cs))) = Some j \<and> json_truthy j"
  then have "walkChunks dj cs None None =
      Inr (Some j, if binChunks cs = [] then None else lastPayload (binChunks cs))"
    using walkChunks_decoded [of cs dj None None] by simp
  moreover have "(if binChunks cs = [] then None else lastPayload (binChunks cs))
      = lastPayload (binChunks cs)" by (simp add: lastPayload_def)
  ultimately show "parseGLB dj (glbBytes cs)
            = Some (Inr \<lparr>json = j, binChunk = lastPayload (binChunks cs)\<rparr>)"
    using a by (simp add: parseGLB_glbBytes)
qed

lemma replicate2: "replicate 2 x = [x, x]"
  by (simp add: numeral_2_eq_2)

lemma glbBytes_example:
  "glbBytes [(0x4E4F534A, [0x7B, 0x7D]), (0x004E4942, [1, 2, 3, 4])] =
     [0x67, 0x6C, 0x54, 0x46, 2, 0, 0, 0, 36, 0, 0, 0,
      2, 0, 0, 0, 0x4A, 0x53, 0x4F, 0x4E, 0x7B, 0x7D, 0, 0,
      4, 0, 0, 0, 0x42, 0x49, 0x4E, 0, 1, 2, 3, 4]"
  by (simp add: glbBytes_def encodeChunk_def encodeU32_def padLength_def replicate2)

theorem parseGLB_spec_witness:
  "parseGLB decodeBraces
     [0x67, 0x6C, 0x54, 0x46, 2, 0, 0, 0, 36, 0, 0, 0,
      2, 0, 0, 0, 0x4A, 0x53, 0x4F, 0x4E, 0x7B, 0x7D, 0, 0,
      4, 0, 0, 0, 0x42, 0x49, 0x4E, 0, 1, 2, 3, 4]
   = Some (Inr \<lparr>json = JObj [], binChunk = Some [1, 2, 3, 4]\<rparr>)"
proof -
  let ?cs = "[(0x4E4F534A, [0x7B, 0x7D]), (0x004E4942, [1, 2, 3, 4])] :: (nat \<times> byte list) list"
  have wf: "wellFramed ?cs"
    unfolding wellFramed_def glbBytes_example by simp
  have jc: "jsonChunks ?cs = [(0x4E4F534A, [0x7B, 0x7D])]" by (simp add: jsonChunks_def)
  have bc: "binChunks ?cs = [(0x004E4942, [1, 2, 3, 4])]" by (simp add: binChunks_def)
  have h: "wellFramed ?cs \<and> jsonChunks ?cs \<noteq> []
        \<and> (\<forall>c \<in> set (jsonChunks ?cs). decodeBraces (snd c) \<noteq> None)
        \<and> decodeBraces (snd (last (jsonChunks ?cs))) = Some (JObj []) \<and> json_truthy (JObj [])"
    using wf unfolding jc by (simp add: decodeBraces_def)
  have "parseGLB decodeBraces (glbBytes ?cs)
        = Some (Inr \<lparr>json = JObj [], binChunk = lastPayload (binChunks ?cs)\<rparr>)"
    using parseGLB_spec [where cs = ?cs and dj = decodeBraces and j = "JObj []"] h by blast
  then show ?thesis unfolding glbBytes_example bc by (simp add: lastPayload_def)
qed

text \<open>
  The claim as stated fails: a header that announces 20 bytes in a 12-byte buffer has no
  JSON chunk, yet the error is the \<open>RangeError\<close> of the first chunk read; a file whose
  JSON chunk holds \<open>null\<close> passes the magic and version checks and has a JSON chunk,
  yet \<open>if (!json)\<close> reports it missing; a JSON chunk that does not parse raises a
  \<open>SyntaxError\<close>.
\<close>

theorem parseGLB_counterexample:
  "parseGLB decodeNull [0x67, 0x6C, 0x54, 0x46, 2, 0, 0, 0, 20, 0, 0, 0] = Some (Inl RangeError)
   \<and> parseGLB decodeNull
        [0x67, 0x6C, 0x54, 0x46, 2, 0, 0, 0, 24, 0, 0, 0,
         4, 0, 0, 0, 0x4A, 0x53, 0x4F, 0x4E, 0x6E, 0x75, 0x6C, 0x6C]
       = Some (Inl MissingJsonChunk)
   \<and> parseGLB decodeNull
        [0x67, 0x6C, 0x54, 0x46, 2, 0, 0, 0, 24, 0, 0, 0,
         4, 0, 0, 0, 0x4A, 0x53, 0x4F, 0x4E, 0x7B, 0x7B, 0x7B, 0x7B]
       = Some (Inl SyntaxError)"
  by (simp add: parseGLB_def getUint32_def parseChunks.simps slice_def alignOffset_def
      wrap_signed_def decodeNull_def)

subsection \<open>writeGLB\<close>

text \<open>
  Buffer views only grow, and a view carries the compression extension only when
  compression is switched on: \<open>viewsOk u\<close> is that invariant of the writer state.
\<close>

lemma padTo_fields [simp]:
  "bufferViews (padTo a st) = bufferViews st" "accessors (padTo a st) = accessors st"
  by (simp_all add: padTo_def Let_def)

lemma emitIndices_views:
  "\<exists>v. bufferViews (fst (emitIndices enc bytesOf u ind st)) = bufferViews st @ [v]
       \<and> (bv_meshopt v \<noteq> None \<longrightarrow> u)"
  by (simp add: emitIndices_def Let_def split: option.splits)

lemma emitAttribute_views:
  "\<exists>v. bufferViews (fst (emitAttribute enc bytesOf u na st)) = bufferViews st @ [v]
       \<and> (bv_meshopt v \<noteq> None \<longrightarrow> u)"
  by (simp add: emitAttribute_def Let_def split: option.splits)

lemma viewsOk_emitIndices:
  "viewsOk u st \<Longrightarrow> viewsOk u (fst (emitIndices enc bytesOf u ind st))"
  using emitIndices_views [of enc bytesOf u ind st] by (auto simp add: viewsOk_def)

lemma viewsOk_emitAttribute:
  "viewsOk u st \<Longrightarrow> viewsOk u (fst (emitAttribute enc bytesOf u na st))"
  using emitAttribute_views [of enc bytesOf u na st] by (auto simp add: viewsOk_def)

lemma foldl_fst_invariant:
  assumes "\<And>s x. P (fst s) \<Longrightarrow> P (fst (f s x))" and "P (fst s0)"
  shows "P (fst (foldl f s0 xs))"
  using assms(2) by (induction xs arbitrary: s0) (simp_all add: assms(1))

lemma viewsOk_emitPrimitive:
  assumes "viewsOk u st"
  shows "viewsOk u (fst (emitPrimitive enc bytesOf u prim st))"
proof -
  have a: "viewsOk u (fst (case op_indices prim of None \<Rightarrow> (st, None)
             | Some ind \<Rightarrow> (let r = emitIndices enc bytesOf u ind st in (fst r, Some (snd r)))))"
    using assms by (simp add: viewsOk_emitIndices Let_def split: option.splits)
  show ?thesis
    unfolding emitPrimitive_def Let_def fst_conv
    by (rule foldl_fst_invariant) (simp_all add: viewsOk_emitAttribute a [unfolded Let_def])
qed

lemma viewsOk_emitMesh:
  "viewsOk u st \<Longrightarrow> viewsOk u (fst (emitMesh enc bytesOf u prims st))"
  unfolding emitMesh_def Let_def fst_conv
  by (rule foldl_fst_invariant) (simp_all add: viewsOk_emitPrimitive)

lemma viewsOk_emitMeshes:
  "viewsOk u st \<Longrightarrow> viewsOk u (fst (emitMeshes enc bytesOf u primitives st))"
  unfolding emitMeshes_def Let_def
  by (rule foldl_fst_invariant) (simp_all add: viewsOk_emitMesh)

lemma foldE_fst_invariant:
  assumes "\<And>s x t. P (fst s) \<Longrightarrow> f s x = Inr t \<Longrightarrow> P (fst t)"
    and "P (fst s0)" and "foldE f s0 xs = Inr r"
  shows "P (fst r)"
  using assms(2,3)
proof (induction xs arbitrary: s0)
  case Nil
  then show ?case by simp
next
  case (Cons x xs)
  then show ?case
    by (cases "f s0 x") (auto intro: assms(1))
qed

lemma viewsOk_emitImage:
  assumes "viewsOk u (fst si)" and "emitImage oj bin pim si ii = Inr t"
  shows "viewsOk u (fst t)"
  using assms
  by (auto simp add: emitImage_def Let_def viewsOk_def split: option.splits sum.splits if_splits)

lemma viewsOk_emitImages:
  assumes "viewsOk u st" and "emitImages oj obin pim st = Inr r"
  shows "viewsOk u (fst r)"
proof (cases "oj_images oj")
  case None
  then show ?thesis using assms by (auto simp add: emitImages_def)
next
  case (Some imgs)
  show ?thesis
  proof (cases obin)
    case None
    then show ?thesis using assms Some by (auto simp add: emitImages_def)
  next
    case (Some bin)
    from assms(2) obtain r' where
      f: "foldE (emitImage oj bin pim) (st, []) (zip [0..<length imgs] imgs) = Inr r'"
      and r: "r = (fst r', Some (snd r'))"
      using \<open>oj_images oj = Some imgs\<close> Some
      by (auto simp add: emitImages_def split: sum.splits)
    have "viewsOk u (fst r')"
      by (rule foldE_fst_invariant [OF _ _ f]) (auto intro: viewsOk_emitImage assms(1))
    then show ?thesis by (simp add: r)
  qed
qed

lemma viewsOk_copyIfForeign:
  assumes "viewsOk u (fst sr)" and "copyIfForeign oj bin sr i = Inr t"
  shows "viewsOk u (fst t)"
  using assms
  by (auto simp add: copyIfForeign_def copyAccessor_def Let_def viewsOk_def
      split: option.splits sum.splits if_splits)

lemma viewsOk_emitAnimationsAndSkins:
  assumes "viewsOk u st" and "emitAnimationsAndSkins oj obin st = Inr r"
  shows "viewsOk u (fst r)"
proof (cases obin)
  case None
  then show ?thesis using assms by (auto simp add: emitAnimationsAndSkins_def)
next
  case (Some bin)
  show ?thesis
  proof (cases "oj_animations oj \<noteq> None \<or> oj_skins oj \<noteq> None")
    case False
    then show ?thesis using assms Some by (auto simp add: emitAnimationsAndSkins_def)
  next
    case True
    from assms(2) obtain sr where
      f: "foldE (copyIfForeign oj bin) (st, Map.empty) (animationAccessorRefs oj) = Inr sr"
      and r: "fst r = fst sr"
      using True Some by (auto simp add: emitAnimationsAndSkins_def split: sum.splits)
    have "viewsOk u (fst sr)"
      by (rule foldE_fst_invariant [OF _ _ f]) (auto intro: viewsOk_copyIfForeign assms(1))
    then show ?thesis by (simp add: r)
  qed
qed

lemma writeGLB_document_views:
  assumes "writeGLB_document enc bytesOf od options pim = Inr (doc, bin)"
  shows "viewsOk (useMeshopt options)
           \<lparr>bufferData = [], bufferViews = gj_bufferViews doc, accessors = [], currentOffset = 0\<rparr>"
proof -
  let ?u = "useMeshopt options"
  let ?s0 = "\<lparr>bufferData = [], bufferViews = [], accessors = [], currentOffset = 0\<rparr>"
  let ?r1 = "emitMeshes enc bytesOf ?u (od_primitives od) ?s0"
  have v1: "viewsOk ?u (fst ?r1)"
    by (rule viewsOk_emitMeshes) (simp add: viewsOk_def)
  from assms obtain r2 r3 where
    r2: "emitImages (od_originalJSON od) (od_originalBinChunk od) pim (fst ?r1) = Inr r2"
    and r3: "emitAnimationsAndSkins (od_originalJSON od) (od_originalBinChunk od) (fst r2) = Inr r3"
    and d: "gj_bufferViews doc = bufferViews (fst r3)"
    by (auto simp add: writeGLB_document_def Let_def split: sum.splits)
  have "viewsOk ?u (fst r3)"
    using viewsOk_emitAnimationsAndSkins [OF viewsOk_emitImages [OF v1 r2] r3] .
  then show ?thesis by (simp add: viewsOk_def d)
qed

text \<open>
  C2. The document \<open>writeGLB\<close> writes lists \<open>EXT_meshopt_compression\<close> in
  \<open>extensionsUsed\<close> exactly when \<open>options.meshoptCompression\<close> is not \<open>false\<close>, whether
  or not a buffer view holds compressed bytes; a view holds compressed bytes only when
  the extension is listed; \<open>KHR_mesh_quantization\<close> is always listed; and
  \<open>extensionsRequired\<close> holds the same names as \<open>extensionsUsed\<close>.
\<close>

theorem writeGLB_extensions:
  assumes "writeGLB_document enc bytesOf optimizedData options processedImages = Inr (doc, bin)"
  shows "(''EXT_meshopt_compression'' \<in> set (extensionsUsed doc)
            \<longleftrightarrow> meshoptCompression options \<noteq> Some False)
         \<and> ((\<exists>bv \<in> set (gj_bufferViews doc). bv_meshopt bv \<noteq> None)
              \<longrightarrow> ''EXT_meshopt_compression'' \<in> set (extensionsUsed doc))
         \<and> ''KHR_mesh_quantization'' \<in> set (extensionsUsed doc)
         \<and> extensionsRequired doc = extensionsUsed doc"
proof -
  have e: "extensionsUsed doc = [''KHR_mesh_quantization'']
             @ (if useMeshopt options then [''EXT_meshopt_compression''] else [])"
    and r: "extensionsRequired doc = extensionsUsed doc"
    using assms by (auto simp add: writeGLB_document_def Let_def split: sum.splits)
  have u: "''EXT_meshopt_compression'' \<in> set (extensionsUsed doc) \<longleftrightarrow> useMeshopt options"
    unfolding e by simp
  have v: "\<forall>bv \<in> set (gj_bufferViews doc). bv_meshopt bv \<noteq> None \<longrightarrow> useMeshopt options"
    using writeGLB_document_views [OF assms] by (simp add: viewsOk_def)
  show ?thesis
    using u v r unfolding e by (auto simp add: useMeshopt_def)
qed

lemma triangle_unsupported:
  "writeGLB_document (failingEncoder\<lparr>supported := False\<rparr>) zeroBytes triangleAsset
     \<lparr>meshoptCompression = None\<rparr> None
   = Inr (\<lparr>extensionsUsed = [''KHR_mesh_quantization'', ''EXT_meshopt_compression''],
           extensionsRequired = [''KHR_mesh_quantization'', ''EXT_meshopt_compression''],
           gj_passthrough = [], gj_nodes = None, gj_animations = None, gj_skins = None,
           gj_meshes = [\<lparr>gm_name = ''mesh_0'',
                         gm_primitives = [\<lparr>gp_attributes = [(''POSITION'', 1)], gp_mode = 4,
                                           gp_material = None, gp_indices = Some 0\<rparr>]\<rparr>],
           gj_accessors =
             [\<lparr>ac_bufferView = 0, ac_componentType = UNSIGNED_SHORT, ac_count = 3,
               ac_type = SCALAR, ac_normalized = None, ac_min = None, ac_max = None\<rparr>,
              \<lparr>ac_bufferView = 1, ac_componentType = FLOAT, ac_count = 3,
               ac_type = VEC3, ac_normalized = None, ac_min = None, ac_max = None\<rparr>],
           gj_images = None,
           gj_bufferViews =
             [\<lparr>bv_byteOffset = 0, bv_byteLength = 6, bv_target = Some 34963,
               bv_meshopt = None\<rparr>,
              \<lparr>bv_byteOffset = 8, bv_byteLength = 36, bv_target = Some 34962,
               bv_meshopt = None\<rparr>],
           gj_bufferByteLength = 44\<rparr>,
          replicate 44 0)"
  by (simp add: writeGLB_document_def triangleAsset_def failingEncoder_def useMeshopt_def
      emitMeshes_def meshesByIndex_def emitMesh_def emitPrimitive_def emitIndices_def
      emitAttribute_def triangleIndices_def trianglePositions_def padTo_def alignTo_def
      byteLength_def COMPONENT_SIZE_def TYPE_COMPONENTS_def zeroBytes_def emitImages_def
      emitAnimationsAndSkins_def applyQuantizationTransforms_def Let_def
      replicate_add [symmetric])

theorem writeGLB_extensions_witness:
  "''EXT_meshopt_compression''
     \<in> set [''KHR_mesh_quantization'', ''EXT_meshopt_compression'']
   \<and> meshoptCompression \<lparr>meshoptCompression = None\<rparr> \<noteq> Some False"
  using writeGLB_extensions [OF triangle_unsupported] by simp

text \<open>
  With the encoder unsupported (or throwing) nothing is compressed: the two buffer views
  of the triangle are plain, yet \<open>EXT_meshopt_compression\<close> is listed as used and
  required because the option is not \<open>false\<close>.
\<close>

theorem writeGLB_extensions_counterexample:
  "extensionsUsed (fst (projr (writeGLB_document (failingEncoder\<lparr>supported := False\<rparr>)
      zeroBytes triangleAsset \<lparr>meshoptCompression = None\<rparr> None)))
     = [''KHR_mesh_quantization'', ''EXT_meshopt_compression'']
   \<and> map bv_meshopt (gj_bufferViews (fst (projr (writeGLB_document
      (failingEncoder\<lparr>supported := False\<rparr>) zeroBytes triangleAsset
      \<lparr>meshoptCompression = None\<rparr> None)))) = [None, None]"
  by (simp add: triangle_unsupported)
















end
